theory Spec2Isabelle
  imports Main "HOL-Library.Sublist" "HOL-Library.AList"
begin

section \<open>Configuration of the sync API\<close>

text \<open>
  The module-level configuration of \<^verbatim>\<open>share/flask_sync_api.py\<close>. The three tables that
  the comments of the source describe as adjustable (\<^verbatim>\<open>jwt_users\<close>, "can be loaded from
  YAML"; \<^verbatim>\<open>MANAGEMENT_USERS\<close>; \<^verbatim>\<open>RESTRICTED\<close>, "Set to True to enforce") are the fields of
  a record that every operation takes; \<open>default_config\<close> holds the values written in the file.
\<close>

definition JWT_KEY :: string where
  "JWT_KEY = ''MyOwnSecretKey''"

definition DATA_HOME :: string where
  "DATA_HOME = ''./dataroot''"

definition TOKEN_DURATION :: int where
  "TOKEN_DURATION = 300"

record config =
  jwt_users :: "(string \<times> string) list"
  MANAGEMENT_USERS :: "string list"
  RESTRICTED :: bool

definition default_config :: config where
  "default_config =
     \<lparr> jwt_users = [(''androiduser'', ''secret''), (''U001'', ''password1''),
                    (''U002'', ''password2''), (''myuser'', ''mysecret''),
                    (''sync_client'', ''sync_password'')],
       MANAGEMENT_USERS = [''androiduser'', ''sync_client''],
       RESTRICTED = False \<rparr>"

text \<open>Python's truth value of an \<^verbatim>\<open>Optional[str]\<close>: \<^verbatim>\<open>None\<close> and the empty string are false.\<close>

definition truthy :: "string option \<Rightarrow> bool" where
  "truthy x = (case x of None \<Rightarrow> False | Some s \<Rightarrow> s \<noteq> [])"

section \<open>Folder resolution\<close>

text \<open>
  \<^verbatim>\<open>get_user_folder(login_user, requested_folder)\<close>; the result \<open>None\<close> is the source's
  \<^verbatim>\<open>return None  # Permission denied\<close>.
\<close>

definition get_user_folder :: "config \<Rightarrow> string \<Rightarrow> string option \<Rightarrow> string option" where
  "get_user_folder cfg login_user requested_folder =
     (if login_user \<in> set (MANAGEMENT_USERS cfg) then
        (if truthy requested_folder then requested_folder else Some login_user)
      else if RESTRICTED cfg then
        (if truthy requested_folder \<and> requested_folder \<noteq> Some login_user then None
         else Some login_user)
      else
        (if truthy requested_folder then requested_folder else Some login_user))"

text \<open>
  The resolver as the specification words it (section 4.2), over an explicit role:
  a second definition, to be compared with the one taken from the source.
\<close>

datatype role = Regular | Management

definition role_of :: "config \<Rightarrow> string \<Rightarrow> role" where
  "role_of cfg subject = (if subject \<in> set (MANAGEMENT_USERS cfg) then Management else Regular)"

datatype resolution = Denied | Folder string

definition non_empty :: "string option \<Rightarrow> bool" where
  "non_empty requestedFolder = (requestedFolder \<noteq> None \<and> requestedFolder \<noteq> Some [])"

fun spec_resolve :: "string \<Rightarrow> role \<Rightarrow> string option \<Rightarrow> bool \<Rightarrow> resolution" where
  "spec_resolve subject Management requestedFolder restrictedModeFlag =
     (if non_empty requestedFolder then Folder (the requestedFolder) else Folder subject)"
| "spec_resolve subject Regular requestedFolder True =
     (if non_empty requestedFolder \<and> the requestedFolder \<noteq> subject then Denied
      else Folder subject)"
| "spec_resolve subject Regular requestedFolder False =
     (if non_empty requestedFolder then Folder (the requestedFolder) else Folder subject)"

definition resolution_of :: "string option \<Rightarrow> resolution" where
  "resolution_of r = (case r of None \<Rightarrow> Denied | Some f \<Rightarrow> Folder f)"

section \<open>Strings and paths\<close>

text \<open>
  Python's \<^verbatim>\<open>s.startswith(p)\<close> is \<open>prefix p s\<close> and \<^verbatim>\<open>sub in s\<close> on strings is
  \<open>sublist sub s\<close> (a contiguous run). The server runs on POSIX: the separator is the
  slash, and a backslash is an ordinary character.
\<close>

definition sep :: char where
  "sep = CHR ''/''"

definition backslash :: char where
  "backslash = CHR 0x5C"

text \<open>\<^verbatim>\<open>posixpath.join\<close>: a component that starts with a slash discards what came before.\<close>

definition join2 :: "string \<Rightarrow> string \<Rightarrow> string" where
  "join2 a b =
     (if prefix [sep] b then b
      else if a = [] \<or> last a = sep then a @ b
      else a @ [sep] @ b)"

definition os_path_join :: "string \<Rightarrow> string list \<Rightarrow> string" where
  "os_path_join a ps = foldl join2 a ps"

text \<open>\<^verbatim>\<open>s.split('/')\<close>.\<close>

fun splitp :: "string \<Rightarrow> string list" where
  "splitp [] = [[]]"
| "splitp (c # cs) =
     (if c = sep then [] # splitp cs
      else (case splitp cs of [] \<Rightarrow> [[c]] | x # xs \<Rightarrow> (c # x) # xs))"

text \<open>\<^verbatim>\<open>str(n)\<close> for a natural number.\<close>

definition digit :: "nat \<Rightarrow> char" where
  "digit d = char_of (48 + d)"

fun str_nat :: "nat \<Rightarrow> string" where
  "str_nat n = (if n < 10 then [digit n] else str_nat (n div 10) @ [digit (n mod 10)])"

declare str_nat.simps [simp del]

text \<open>\<^verbatim>\<open>str(x)\<close> of an \<^verbatim>\<open>Optional[str]\<close> inside an f-string.\<close>

definition str_opt :: "string option \<Rightarrow> string" where
  "str_opt x = (case x of None \<Rightarrow> ''None'' | Some s \<Rightarrow> s)"

section \<open>The file system\<close>

text \<open>
  The directory tree the process sees, from the root directory down. A regular file has
  its bytes, its modification time and whether the server process may read it (the one
  permission the source's error handling observes); a directory has named entries.
  There are no symbolic links.
\<close>

datatype node =
    File string int bool
  | Dir "(string \<times> node) list"

fun is_dir :: "node option \<Rightarrow> bool" where
  "is_dir (Some (Dir es)) = True"
| "is_dir _ = False"

fun is_file :: "node option \<Rightarrow> bool" where
  "is_file (Some (File c m r)) = True"
| "is_file _ = False"

text \<open>A location is the list of names from the root directory to a node.\<close>

primrec lookup :: "string list \<Rightarrow> node \<Rightarrow> node option" where
  "lookup [] n = Some n"
| "lookup (c # cs) n =
     (case n of
        File b m r \<Rightarrow> None
      | Dir es \<Rightarrow> (case map_of es c of None \<Rightarrow> None | Some d \<Rightarrow> lookup cs d))"

text \<open>
  \<open>put l new n\<close> stores \<open>new\<close> at location \<open>l\<close> when the parent of \<open>l\<close> is a directory
  (replacing what was there, or adding an entry); otherwise the tree is unchanged.
\<close>

primrec put :: "string list \<Rightarrow> node \<Rightarrow> node \<Rightarrow> node" where
  "put [] new n = new"
| "put (c # cs) new n =
     (case n of
        File b m r \<Rightarrow> n
      | Dir es \<Rightarrow>
          (case map_of es c of
             None \<Rightarrow> if cs = [] then Dir (AList.update c new es) else n
           | Some d \<Rightarrow> Dir (AList.update c (put cs new d) es)))"

primrec unlink :: "string list \<Rightarrow> node \<Rightarrow> node" where
  "unlink [] n = n"
| "unlink (c # cs) n =
     (case n of
        File b m r \<Rightarrow> n
      | Dir es \<Rightarrow>
          if cs = [] then Dir (AList.delete c es)
          else (case map_of es c of
                  None \<Rightarrow> n
                | Some d \<Rightarrow> Dir (AList.update c (unlink cs d) es)))"

text \<open>
  The calls made to the operating system are recorded, each with the path string it was given:
  the instrumented store of section 8 of the specification.
\<close>

datatype io =
    IoStat string
  | IoOpenRead string
  | IoOpenWrite string
  | IoMakedirs string
  | IoRemove string
  | IoScandir string

record world =
  root :: node
  cwd :: "string list"
  trace :: "io list"

definition traced :: "io \<Rightarrow> world \<Rightarrow> world" where
  "traced e w = w\<lparr>trace := trace w @ [e]\<rparr>"

text \<open>
  Path resolution as the kernel does it: component by component from the root directory
  (absolute path) or the working directory, where every component is looked up in a
  directory; \<open>..\<close> in the root directory stays there.
\<close>

fun resolve :: "node \<Rightarrow> string list \<Rightarrow> string list \<Rightarrow> string list option" where
  "resolve r cur [] = Some cur"
| "resolve r cur (c # cs) =
     (if \<not> is_dir (lookup cur r) then None
      else if c = [] \<or> c = ''.'' then resolve r cur cs
      else if c = ''..'' then resolve r (butlast cur) cs
      else resolve r (cur @ [c]) cs)"

definition path_loc :: "world \<Rightarrow> string \<Rightarrow> string list option" where
  "path_loc w p =
     (if p = [] then None
      else resolve (root w) (if prefix [sep] p then [] else cwd w) (splitp p))"

definition stat_node :: "world \<Rightarrow> string \<Rightarrow> node option" where
  "stat_node w p = (case path_loc w p of None \<Rightarrow> None | Some l \<Rightarrow> lookup l (root w))"

text \<open>The exceptions the modelled calls raise.\<close>

datatype exn =
    FileNotFoundError string
  | NotADirectoryError string
  | IsADirectoryError string
  | FileExistsError string
  | PermissionError string
  | KeyError string
  | JSONDecodeError
  | UnicodeDecodeError
  | AttributeError

definition os_path_exists :: "string \<Rightarrow> world \<Rightarrow> bool \<times> world" where
  "os_path_exists p w = (stat_node w p \<noteq> None, traced (IoStat p) w)"

definition os_path_isfile :: "string \<Rightarrow> world \<Rightarrow> bool \<times> world" where
  "os_path_isfile p w = (is_file (stat_node w p), traced (IoStat p) w)"

definition st_size :: "node \<Rightarrow> nat" where
  "st_size n = (case n of File b m r \<Rightarrow> length b | Dir es \<Rightarrow> 0)"

definition st_mtime :: "node \<Rightarrow> int" where
  "st_mtime n = (case n of File b m r \<Rightarrow> m | Dir es \<Rightarrow> 0)"

definition os_stat :: "string \<Rightarrow> world \<Rightarrow> (exn + node) \<times> world" where
  "os_stat p w =
     (case stat_node w p of
        None \<Rightarrow> (Inl (FileNotFoundError p), traced (IoStat p) w)
      | Some n \<Rightarrow> (Inr n, traced (IoStat p) w))"

text \<open>\<^verbatim>\<open>open(p, 'r')\<close> or \<^verbatim>\<open>open(p, 'rb')\<close> followed by \<^verbatim>\<open>read()\<close>.\<close>

definition open_read :: "string \<Rightarrow> world \<Rightarrow> (exn + string) \<times> world" where
  "open_read p w =
     (case stat_node w p of
        None \<Rightarrow> (Inl (FileNotFoundError p), traced (IoOpenRead p) w)
      | Some (Dir es) \<Rightarrow> (Inl (IsADirectoryError p), traced (IoOpenRead p) w)
      | Some (File b m r) \<Rightarrow>
          (if r then Inr b else Inl (PermissionError p), traced (IoOpenRead p) w))"

text \<open>
  \<^verbatim>\<open>open(p, 'w')\<close> followed by writing \<open>b\<close>, and werkzeug's \<^verbatim>\<open>FileStorage.save(p)\<close>: the
  parent directory must exist; an existing regular file is replaced and keeps its mode.
\<close>

definition open_write :: "string \<Rightarrow> string \<Rightarrow> int \<Rightarrow> world \<Rightarrow> (exn + unit) \<times> world" where
  "open_write p b t w =
     (case path_loc w p of
        None \<Rightarrow> (Inl (FileNotFoundError p), traced (IoOpenWrite p) w)
      | Some l \<Rightarrow>
          (case lookup l (root w) of
             Some (Dir es) \<Rightarrow> (Inl (IsADirectoryError p), traced (IoOpenWrite p) w)
           | Some (File b0 m0 r0) \<Rightarrow>
               (Inr (), traced (IoOpenWrite p) (w\<lparr>root := put l (File b t r0) (root w)\<rparr>))
           | None \<Rightarrow>
               (if l \<noteq> [] \<and> is_dir (lookup (butlast l) (root w))
                then (Inr (), traced (IoOpenWrite p) (w\<lparr>root := put l (File b t True) (root w)\<rparr>))
                else (Inl (FileNotFoundError p), traced (IoOpenWrite p) w))))"

text \<open>
  \<^verbatim>\<open>os.makedirs(p, exist_ok=True)\<close>, by its effect: every directory along \<open>p\<close> that is
  missing is created; a regular file in the way raises.
\<close>

fun mkdirs :: "string \<Rightarrow> node \<Rightarrow> string list \<Rightarrow> string list \<Rightarrow> exn + node" where
  "mkdirs p r cur [] = Inr r"
| "mkdirs p r cur (c # cs) =
     (if \<not> is_dir (lookup cur r) then Inl (NotADirectoryError p)
      else if c = [] \<or> c = ''.'' then mkdirs p r cur cs
      else if c = ''..'' then mkdirs p r (butlast cur) cs
      else (case lookup (cur @ [c]) r of
              None \<Rightarrow> mkdirs p (put (cur @ [c]) (Dir []) r) (cur @ [c]) cs
            | Some (Dir es) \<Rightarrow> mkdirs p r (cur @ [c]) cs
            | Some (File b m x) \<Rightarrow>
                Inl (if cs = [] then FileExistsError p else NotADirectoryError p)))"

definition os_makedirs :: "string \<Rightarrow> world \<Rightarrow> (exn + unit) \<times> world" where
  "os_makedirs p w =
     (if p = [] then (Inl (FileNotFoundError p), traced (IoMakedirs p) w)
      else (case mkdirs p (root w) (if prefix [sep] p then [] else cwd w) (splitp p) of
              Inl e \<Rightarrow> (Inl e, traced (IoMakedirs p) w)
            | Inr r' \<Rightarrow> (Inr (), traced (IoMakedirs p) (w\<lparr>root := r'\<rparr>))))"

definition os_remove :: "string \<Rightarrow> world \<Rightarrow> (exn + unit) \<times> world" where
  "os_remove p w =
     (case path_loc w p of
        None \<Rightarrow> (Inl (FileNotFoundError p), traced (IoRemove p) w)
      | Some l \<Rightarrow>
          (case lookup l (root w) of
             None \<Rightarrow> (Inl (FileNotFoundError p), traced (IoRemove p) w)
           | Some (Dir es) \<Rightarrow> (Inl (IsADirectoryError p), traced (IoRemove p) w)
           | Some (File b m r) \<Rightarrow>
               (Inr (), traced (IoRemove p) (w\<lparr>root := unlink l (root w)\<rparr>))))"

definition os_listdir :: "string \<Rightarrow> world \<Rightarrow> (exn + string list) \<times> world" where
  "os_listdir p w =
     (case stat_node w p of
        None \<Rightarrow> (Inl (FileNotFoundError p), traced (IoScandir p) w)
      | Some (File b m r) \<Rightarrow> (Inl (NotADirectoryError p), traced (IoScandir p) w)
      | Some (Dir es) \<Rightarrow> (Inr (map fst es), traced (IoScandir p) w))"

definition os_path_isdir :: "string \<Rightarrow> world \<Rightarrow> bool \<times> world" where
  "os_path_isdir p w = (is_dir (stat_node w p), traced (IoStat p) w)"

text \<open>\<^verbatim>\<open>os.path.dirname\<close>: everything before the last slash, without trailing slashes
  unless it is all slashes.\<close>

definition rstrip_sep :: "string \<Rightarrow> string" where
  "rstrip_sep s = rev (dropWhile (\<lambda>c. c = sep) (rev s))"

definition os_path_dirname :: "string \<Rightarrow> string" where
  "os_path_dirname p =
     (let hd' = rev (dropWhile (\<lambda>c. c \<noteq> sep) (rev p))
      in if hd' \<noteq> [] \<and> rstrip_sep hd' \<noteq> [] then rstrip_sep hd' else hd')"

text \<open>
  \<^verbatim>\<open>os.walk(top)\<close>, top-down: for each directory its path, the names of its
  subdirectories and the names of its other entries; a \<open>top\<close> that is no directory
  yields nothing.
\<close>

fun walk :: "string \<Rightarrow> node \<Rightarrow> (string \<times> string list \<times> string list) list" where
  "walk tp (File b m r) = []"
| "walk tp (Dir es) =
     (tp, map fst (filter (\<lambda>(n, d). is_dir (Some d)) es),
           map fst (filter (\<lambda>(n, d). \<not> is_dir (Some d)) es))
     # concat (map (\<lambda>(n, d). walk (join2 tp n) d) es)"

definition os_walk :: "string \<Rightarrow> world \<Rightarrow> (string \<times> string list \<times> string list) list \<times> world" where
  "os_walk tp w =
     (case stat_node w tp of
        None \<Rightarrow> ([], traced (IoScandir tp) w)
      | Some n \<Rightarrow>
          (walk tp n,
           if is_dir (Some n) then w\<lparr>trace := trace w @ map (\<lambda>(d, ds, fs). IoScandir d) (walk tp n)\<rparr>
           else traced (IoScandir tp) w))"

text \<open>
  \<^verbatim>\<open>posixpath.relpath(path, start)\<close>: both paths are made absolute and normalised
  lexically (\<^verbatim>\<open>abspath\<close>), then the common leading components are dropped.
\<close>

fun normpath :: "string list \<Rightarrow> string list \<Rightarrow> string list" where
  "normpath acc [] = acc"
| "normpath acc (c # cs) =
     (if c = [] \<or> c = ''.'' then normpath acc cs
      else if c = ''..'' then normpath (butlast acc) cs
      else normpath (acc @ [c]) cs)"

definition abspath :: "world \<Rightarrow> string \<Rightarrow> string list" where
  "abspath w p = normpath (if prefix [sep] p then [] else cwd w) (splitp p)"

definition os_path_relpath :: "world \<Rightarrow> string \<Rightarrow> string \<Rightarrow> string" where
  "os_path_relpath w path start =
     (let start_list = abspath w start;
          path_list = abspath w path;
          i = length (longest_common_prefix start_list path_list);
          rel_list = replicate (length start_list - i) ''..'' @ drop i path_list
      in case rel_list of [] \<Rightarrow> ''.'' | x # xs \<Rightarrow> os_path_join x xs)"

definition replace_backslash :: "string \<Rightarrow> string" where
  "replace_backslash s = map (\<lambda>c. if c = backslash then sep else c) s"

section \<open>Libraries and the request\<close>

text \<open>
  What the source takes from outside the repository. The standard library's \<^verbatim>\<open>hashlib\<close> and
  \<^verbatim>\<open>json\<close>, and Python's formatting of lists and exceptions, are parameters of the model:
  \<open>json_load\<close> returns the value read or the exception raised. Of Flask, the model keeps
  \<^verbatim>\<open>app.root_path\<close>, the directory of the module that creates the application
  (\<^verbatim>\<open>app = Flask(__name__)\<close>): \<^verbatim>\<open>send_file\<close> resolves a relative path against it, not
  against the working directory.
\<close>

datatype json =
    JNull
  | JBool bool
  | JNum int
  | JStr string
  | JList "json list"
  | JDict "(string \<times> json) list"

record extlib =
  sha256_hexdigest :: "string \<Rightarrow> string"
  json_load :: "string \<Rightarrow> exn + json"
  json_dump :: "json \<Rightarrow> string"
  repr_list :: "string list \<Rightarrow> string"
  str_exn :: "exn \<Rightarrow> string"
  isalnum :: "string \<Rightarrow> bool"
  root_path :: string

text \<open>
  The clock as one request reads it: \<^verbatim>\<open>datetime.now(tz=pytz.utc)\<close> in whole seconds since
  the epoch (PyJWT stores \<^verbatim>\<open>exp\<close> in whole seconds), \<^verbatim>\<open>datetime.now().isoformat()\<close> and
  \<^verbatim>\<open>date.today().isoformat()\<close>.
\<close>

record clock =
  now :: int
  now_isoformat :: string
  today_isoformat :: string

text \<open>
  PyJWT, symbolically: a token is either a string that does not parse as an HS256 token,
  or the claims signed under a key; a signature verifies under the signing key only.
  \<^verbatim>\<open>jwt.decode\<close> checks the signature first and the expiry after it.
\<close>

record claims =
  claim_user_id :: "string option"
  claim_user_folder :: "string option"
  claim_exp :: "int option"

datatype token_str = Garbage string | Signed string claims

datatype jwt_error = ExpiredSignatureError | InvalidSignatureError | DecodeError

definition jwt_encode :: "claims \<Rightarrow> string \<Rightarrow> token_str" where
  "jwt_encode payload key = Signed key payload"

definition jwt_decode :: "token_str \<Rightarrow> string \<Rightarrow> int \<Rightarrow> jwt_error + claims" where
  "jwt_decode token_str key t =
     (case token_str of
        Garbage s \<Rightarrow> Inl DecodeError
      | Signed k payload \<Rightarrow>
          if k \<noteq> key then Inl InvalidSignatureError
          else (case claim_exp payload of
                  None \<Rightarrow> Inr payload
                | Some e \<Rightarrow> if e \<le> t then Inl ExpiredSignatureError else Inr payload))"

text \<open>
  A request: the form field \<^verbatim>\<open>token\<close>, the other form fields, and the uploaded files
  (\<^verbatim>\<open>request.files\<close>) as field name, file name and bytes.
\<close>

record request =
  form_token :: "token_str option"
  form :: "(string \<times> string) list"
  files :: "(string \<times> string \<times> string) list"

definition dict_keys :: "('k \<times> 'v) list \<Rightarrow> 'k list" where
  "dict_keys kvs = rev (remdups (rev (map fst kvs)))"

record file_record =
  rec_size :: nat
  rec_mtime :: int
  rec_hash :: string

datatype payload =
    NoPayload
  | TokenIssued token_str string
  | FilesList "string list"
  | Uploaded "string list" string
  | UploadsMap "(string \<times> string list) list"
  | SyncedPath string
  | Metadata "(string \<times> file_record) list"
  | FolderCreated string

text \<open>
  What a handler gives back: \<^verbatim>\<open>jsonify(error=..., message=..., ...)\<close>, the bytes of
  \<^verbatim>\<open>send_file\<close>, or an exception that no handler catches.
\<close>

datatype response =
    Jsonify bool string payload
  | SendFile string
  | Uncaught exn

definition error_response :: "string \<Rightarrow> response" where
  "error_response message = Jsonify True message NoPayload"

definition missing_parameter :: "extlib \<Rightarrow> string \<Rightarrow> response" where
  "missing_parameter L k = error_response (''Missing parameter: '' @ str_exn L (KeyError k))"

definition quote :: char where
  "quote = CHR 0x27"

section \<open>Logging and directories\<close>

definition ensure_user_directories :: "string \<Rightarrow> world \<Rightarrow> (exn + unit) \<times> world" where
  "ensure_user_directories user_folder w =
     (if user_folder = [] then (Inr (), w)
      else
        (let user_download_dir = os_path_join DATA_HOME [''downloads'', ''users'', user_folder] in
         case os_makedirs user_download_dir w of
           (Inl e, w1) \<Rightarrow> (Inl e, w1)
         | (Inr u, w1) \<Rightarrow>
             (let user_upload_dir = os_path_join DATA_HOME [''uploads'', user_folder]
              in os_makedirs user_upload_dir w1)))"

definition log_entry :: "clock \<Rightarrow> string \<Rightarrow> string \<Rightarrow> string \<Rightarrow> json" where
  "log_entry clk user_id operation details =
     JDict [(''timestamp'', JStr (now_isoformat clk)), (''user_id'', JStr user_id),
            (''operation'', JStr operation), (''details'', JStr details)]"

definition log_file :: "clock \<Rightarrow> string" where
  "log_file clk = os_path_join DATA_HOME [''logs'', ''sync_'' @ today_isoformat clk @ ''.json'']"

text \<open>
  \<^verbatim>\<open>log_sync_operation\<close>: the day's log is read when it exists (a file that is not JSON
  counts as an empty log), the entry is appended and the file written again. Appending to
  a JSON value that is no list raises.
\<close>

definition read_logs :: "extlib \<Rightarrow> clock \<Rightarrow> world \<Rightarrow> (exn + json) \<times> world" where
  "read_logs L clk w =
     (case os_path_exists (log_file clk) w of
        (False, w1) \<Rightarrow> (Inr (JList []), w1)
      | (True, w1) \<Rightarrow>
          (case open_read (log_file clk) w1 of
             (Inl e, w2) \<Rightarrow> (Inl e, w2)
           | (Inr text, w2) \<Rightarrow>
               (case json_load L text of
                  Inl e \<Rightarrow> if e = JSONDecodeError then (Inr (JList []), w2) else (Inl e, w2)
                | Inr logs \<Rightarrow> (Inr logs, w2))))"

definition log_sync_operation ::
  "extlib \<Rightarrow> clock \<Rightarrow> string \<Rightarrow> string \<Rightarrow> string \<Rightarrow> world \<Rightarrow> (exn + unit) \<times> world" where
  "log_sync_operation L clk user_id operation details w =
     (case read_logs L clk w of
        (Inl e, w1) \<Rightarrow> (Inl e, w1)
      | (Inr v, w1) \<Rightarrow>
          (case v of
             JList logs \<Rightarrow>
               open_write (log_file clk)
                 (json_dump L (JList (logs @ [log_entry clk user_id operation details])))
                 (now clk) w1
           | _ \<Rightarrow> (Inl AttributeError, w1)))"

text \<open>A handler's last steps: log, then answer; an exception of the log is not caught.\<close>

definition logged ::
  "extlib \<Rightarrow> clock \<Rightarrow> string \<Rightarrow> string \<Rightarrow> string \<Rightarrow> (world \<Rightarrow> response \<times> world) \<Rightarrow> world
     \<Rightarrow> response \<times> world" where
  "logged L clk user_id operation details answer w =
     (case log_sync_operation L clk user_id operation details w of
        (Inl e, w1) \<Rightarrow> (Uncaught e, w1)
      | (Inr u, w1) \<Rightarrow> answer w1)"

section \<open>Tokens\<close>

text \<open>
  \<^verbatim>\<open>verify_token\<close>, at the time \<open>t\<close> of the call. A payload without \<^verbatim>\<open>user_id\<close> raises
  \<^verbatim>\<open>KeyError\<close>, which the last \<^verbatim>\<open>except\<close> clause catches.
\<close>

definition verify_token :: "token_str \<Rightarrow> int \<Rightarrow> (string \<times> string option) option" where
  "verify_token token_str t =
     (case jwt_decode token_str JWT_KEY t of
        Inl ExpiredSignatureError \<Rightarrow> None
      | Inl e \<Rightarrow> None
      | Inr payload \<Rightarrow>
          (case claim_user_id payload of
             None \<Rightarrow> None
           | Some user_id \<Rightarrow> Some (user_id, claim_user_folder payload)))"

text \<open>\<^verbatim>\<open>token()\<close>, the route \<^verbatim>\<open>/api/v1/token\<close>.\<close>

definition token :: "config \<Rightarrow> extlib \<Rightarrow> clock \<Rightarrow> request \<Rightarrow> world \<Rightarrow> response \<times> world" where
  "token cfg L clk req w =
     (case map_of (form req) ''user'' of
        None \<Rightarrow> (missing_parameter L ''user'', w)
      | Some user_id \<Rightarrow>
     (case map_of (form req) ''password'' of
        None \<Rightarrow> (missing_parameter L ''password'', w)
      | Some password \<Rightarrow>
     (let requested_folder = map_of (form req) ''folder'' in
      if map_of (jwt_users cfg) user_id \<noteq> Some password then
        logged L clk user_id ''AUTH_FAILED'' ''Invalid credentials''
          (\<lambda>w1. (error_response ''Invalid credentials.'', w1)) w
      else
        (case get_user_folder cfg user_id requested_folder of
           None \<Rightarrow>
             logged L clk user_id ''AUTH_FAILED'' ''Restricted mode: can only access own folder''
               (\<lambda>w1. (error_response
                   ''In restricted mode, users can only access their own folder.'', w1)) w
         | Some user_folder \<Rightarrow>
             (case (if user_folder \<noteq> [] then ensure_user_directories user_folder w
                    else (Inr (), w)) of
                (Inl e, w1) \<Rightarrow> (Uncaught e, w1)
              | (Inr u, w1) \<Rightarrow>
                  (let payload = \<lparr> claim_user_id = Some user_id,
                                   claim_user_folder = Some user_folder,
                                   claim_exp = Some (now clk + TOKEN_DURATION) \<rparr>;
                       tok = jwt_encode payload JWT_KEY;
                       log_info = ''Token generated for '' @ str_nat (nat TOKEN_DURATION) @ ''s''
                                  @ (if user_folder \<noteq> [] then '', folder: '' @ user_folder else [])
                   in logged L clk user_id ''AUTH_SUCCESS'' log_info
                        (\<lambda>w2. (Jsonify False
                                 (''Token valid for '' @ str_nat (nat TOKEN_DURATION) @ '' seconds.'')
                                 (TokenIssued tok user_folder), w2)) w1))))))"

section \<open>Downloads\<close>

text \<open>\<^verbatim>\<open>os.path.exists(p) and os.path.isfile(p)\<close>: the second call is made only when the
  first is true.\<close>

definition exists_and_isfile :: "string \<Rightarrow> world \<Rightarrow> bool \<times> world" where
  "exists_and_isfile p w =
     (case os_path_exists p w of
        (False, w1) \<Rightarrow> (False, w1)
      | (True, w1) \<Rightarrow> os_path_isfile p w1)"

text \<open>
  \<^verbatim>\<open>flask.send_file(p)\<close>: the path is joined to the application's root path (an absolute
  \<open>p\<close> replaces it), the file there is examined with \<^verbatim>\<open>stat\<close> and then opened and read;
  an exception of either call is not caught by the handler.
\<close>

definition send_file :: "extlib \<Rightarrow> string \<Rightarrow> world \<Rightarrow> response \<times> world" where
  "send_file L p w =
     (let path = os_path_join (root_path L) [p]
      in case os_stat path w of
           (Inl e, w1) \<Rightarrow> (Uncaught e, w1)
         | (Inr st, w1) \<Rightarrow>
             (case open_read path w1 of
                (Inl e, w2) \<Rightarrow> (Uncaught e, w2)
              | (Inr b, w2) \<Rightarrow> (SendFile b, w2)))"

text \<open>
  The two loops of \<^verbatim>\<open>list_downloads\<close>: the entries of \<open>dir\<close> that are regular files, each
  listed as \<open>shown @ item\<close>.
\<close>

fun keep_files :: "string \<Rightarrow> string \<Rightarrow> string list \<Rightarrow> string list \<Rightarrow> world \<Rightarrow> string list \<times> world" where
  "keep_files dir shown [] found w = (found, w)"
| "keep_files dir shown (item # items) found w =
     (let item_path = os_path_join dir [item] in
      case os_path_isfile item_path w of
        (True, w1) \<Rightarrow> keep_files dir shown items (found @ [shown @ item]) w1
      | (False, w1) \<Rightarrow> keep_files dir shown items found w1)"

definition list_files_of ::
  "string \<Rightarrow> string \<Rightarrow> string list \<Rightarrow> world \<Rightarrow> (exn + string list) \<times> world" where
  "list_files_of dir shown found w =
     (case os_path_exists dir w of
        (False, w1) \<Rightarrow> (Inr found, w1)
      | (True, w1) \<Rightarrow>
          (case os_listdir dir w1 of
             (Inl e, w2) \<Rightarrow> (Inl e, w2)
           | (Inr items, w2) \<Rightarrow>
               (case keep_files dir shown items found w2 of (found', w3) \<Rightarrow> (Inr found', w3))))"

text \<open>\<^verbatim>\<open>list_downloads()\<close>, the route \<^verbatim>\<open>/api/v1/downloads\<close>.\<close>

definition list_downloads :: "extlib \<Rightarrow> clock \<Rightarrow> request \<Rightarrow> world \<Rightarrow> response \<times> world" where
  "list_downloads L clk req w =
     (case form_token req of
        None \<Rightarrow> (error_response ''Missing token parameter.'', w)
      | Some token_str \<Rightarrow>
     (case verify_token token_str (now clk) of
        None \<Rightarrow> (error_response ''Invalid or expired token.'', w)
      | Some (user_id, user_folder) \<Rightarrow>
          (let downloads_dir = os_path_join DATA_HOME [''downloads''] in
           case list_files_of downloads_dir ''downloads/'' [] w of
             (Inl e, w1) \<Rightarrow> (Uncaught e, w1)
           | (Inr found, w1) \<Rightarrow>
               (case (if truthy user_folder then
                        list_files_of
                          (os_path_join DATA_HOME [''downloads'', ''users'', str_opt user_folder])
                          (''downloads/users/'' @ str_opt user_folder @ ''/'') found w1
                      else (Inr found, w1)) of
                  (Inl e, w2) \<Rightarrow> (Uncaught e, w2)
                | (Inr found', w2) \<Rightarrow>
                    logged L clk user_id ''LIST_DOWNLOADS''
                      (''Found '' @ str_nat (length found') @ '' files, folder: ''
                       @ str_opt user_folder)
                      (\<lambda>w3. (Jsonify False ''Files available for download.'' (FilesList found'),
                             w3)) w2))))"

text \<open>\<^verbatim>\<open>download_file_auto()\<close>, the route \<^verbatim>\<open>/api/v1/download_auto\<close>.\<close>

definition download_file_auto :: "extlib \<Rightarrow> clock \<Rightarrow> request \<Rightarrow> world \<Rightarrow> response \<times> world" where
  "download_file_auto L clk req w =
     (case form_token req of
        None \<Rightarrow> (missing_parameter L ''token'', w)
      | Some token_str \<Rightarrow>
     (case map_of (form req) ''file'' of
        None \<Rightarrow> (missing_parameter L ''file'', w)
      | Some filename \<Rightarrow>
     (case verify_token token_str (now clk) of
        None \<Rightarrow> (error_response ''Invalid or expired token.'', w)
      | Some (user_id, user_folder) \<Rightarrow>
          if sublist ''..'' filename \<or> sep \<in> set filename \<or> backslash \<in> set filename then
            (error_response ''Invalid filename. Use filename only, no paths.'', w)
          else
            (let user_file_path =
                   os_path_join DATA_HOME [''downloads'', ''users'', str_opt user_folder, filename]
             in case (if truthy user_folder then exists_and_isfile user_file_path w
                      else (False, w)) of
                  (True, w1) \<Rightarrow>
                    logged L clk user_id ''DOWNLOAD_AUTO''
                      (''User file: downloads/users/'' @ str_opt user_folder @ ''/'' @ filename)
                      (send_file L user_file_path) w1
                | (False, w1) \<Rightarrow>
                    (let global_file_path = os_path_join DATA_HOME [''downloads'', filename]
                     in case exists_and_isfile global_file_path w1 of
                          (True, w2) \<Rightarrow>
                            logged L clk user_id ''DOWNLOAD_AUTO''
                              (''Global file: downloads/'' @ filename)
                              (send_file L global_file_path) w2
                        | (False, w2) \<Rightarrow>
                            logged L clk user_id ''DOWNLOAD_AUTO_NOT_FOUND''
                              (''File: '' @ filename @ '', folder: '' @ str_opt user_folder)
                              (\<lambda>w3. (error_response
                                  (''File '' @ [quote] @ filename @ [quote]
                                   @ '' not found in user or global directories.''), w3)) w2)))))"

text \<open>\<^verbatim>\<open>download_file()\<close>, the route \<^verbatim>\<open>/api/v1/download\<close>.\<close>

definition download_allowed :: "string \<Rightarrow> string option \<Rightarrow> bool" where
  "download_allowed file_path user_folder =
     (prefix ''downloads/'' file_path \<and>
      (\<not> prefix ''downloads/users/'' file_path \<or>
       (truthy user_folder \<and>
        prefix (''downloads/users/'' @ str_opt user_folder @ ''/'') file_path)))"

definition download_file :: "extlib \<Rightarrow> clock \<Rightarrow> request \<Rightarrow> world \<Rightarrow> response \<times> world" where
  "download_file L clk req w =
     (case form_token req of
        None \<Rightarrow> (missing_parameter L ''token'', w)
      | Some token_str \<Rightarrow>
     (case map_of (form req) ''file'' of
        None \<Rightarrow> (missing_parameter L ''file'', w)
      | Some file_path \<Rightarrow>
     (case verify_token token_str (now clk) of
        None \<Rightarrow> (error_response ''Invalid or expired token.'', w)
      | Some (user_id, user_folder) \<Rightarrow>
          if \<not> download_allowed file_path user_folder then
            (error_response ''Access denied to requested file.'', w)
          else
            (let full_path = os_path_join DATA_HOME [file_path]
             in case exists_and_isfile full_path w of
                  (False, w1) \<Rightarrow> (error_response ''File not found.'', w1)
                | (True, w1) \<Rightarrow>
                    logged L clk user_id ''DOWNLOAD''
                      (''File: '' @ file_path @ '', folder: '' @ str_opt user_folder)
                      (send_file L full_path) w1))))"

section \<open>Uploads\<close>

text \<open>The loop of \<^verbatim>\<open>upload_files\<close> over \<^verbatim>\<open>request.files.keys()\<close>; \<open>request.files[key]\<close>
  is the first file sent under that field name.\<close>

fun save_files ::
  "string \<Rightarrow> (string \<times> string \<times> string) list \<Rightarrow> string list \<Rightarrow> int \<Rightarrow> string list \<Rightarrow> world
     \<Rightarrow> (exn + string list) \<times> world" where
  "save_files upload_dir fs [] t uploaded_files w = (Inr uploaded_files, w)"
| "save_files upload_dir fs (key # keys) t uploaded_files w =
     (case map_of fs key of
        None \<Rightarrow> save_files upload_dir fs keys t uploaded_files w
      | Some (filename, bytes) \<Rightarrow>
          if filename \<noteq> [] then
            (let file_path = os_path_join upload_dir [filename] in
             case open_write file_path bytes t w of
               (Inl e, w1) \<Rightarrow> (Inl e, w1)
             | (Inr u, w1) \<Rightarrow> save_files upload_dir fs keys t (uploaded_files @ [filename]) w1)
          else save_files upload_dir fs keys t uploaded_files w)"

text \<open>\<^verbatim>\<open>upload_folder = user_folder or user_id\<close>.\<close>

definition upload_folder_of :: "string option \<Rightarrow> string \<Rightarrow> string" where
  "upload_folder_of user_folder user_id = (if truthy user_folder then str_opt user_folder else user_id)"

text \<open>\<^verbatim>\<open>upload_files()\<close>, the route \<^verbatim>\<open>/api/v1/upload\<close>.\<close>

definition upload_files :: "extlib \<Rightarrow> clock \<Rightarrow> request \<Rightarrow> world \<Rightarrow> response \<times> world" where
  "upload_files L clk req w =
     (case form_token req of
        None \<Rightarrow> (error_response ''Missing token parameter.'', w)
      | Some token_str \<Rightarrow>
     (case verify_token token_str (now clk) of
        None \<Rightarrow> (error_response ''Invalid or expired token.'', w)
      | Some (user_id, user_folder) \<Rightarrow>
          if files req = [] then (error_response ''No files provided.'', w)
          else
            (let upload_folder = upload_folder_of user_folder user_id;
                 upload_dir = os_path_join DATA_HOME [''uploads'', upload_folder]
             in case os_makedirs upload_dir w of
                  (Inl e, w1) \<Rightarrow> (Uncaught e, w1)
                | (Inr u, w1) \<Rightarrow>
                    (case save_files upload_dir (files req) (dict_keys (files req)) (now clk) [] w1 of
                       (Inl e, w2) \<Rightarrow> (Uncaught e, w2)
                     | (Inr uploaded_files, w2) \<Rightarrow>
                         logged L clk user_id ''UPLOAD''
                           (''Files: '' @ repr_list L uploaded_files @ '', folder: '' @ upload_folder)
                           (\<lambda>w3. (Jsonify False ''Files uploaded successfully.''
                                     (Uploaded uploaded_files upload_folder), w3)) w2))))"

text \<open>The loop of \<^verbatim>\<open>list_uploads\<close> over the entries of \<^verbatim>\<open>uploads/\<close>.\<close>

fun uploads_of ::
  "string \<Rightarrow> string list \<Rightarrow> (string \<times> string list) list \<Rightarrow> world
     \<Rightarrow> (exn + (string \<times> string list) list) \<times> world" where
  "uploads_of uploads_dir [] all_uploads w = (Inr all_uploads, w)"
| "uploads_of uploads_dir (user_folder_name # names) all_uploads w =
     (let user_upload_path = os_path_join uploads_dir [user_folder_name] in
      case os_path_isdir user_upload_path w of
        (False, w1) \<Rightarrow> uploads_of uploads_dir names all_uploads w1
      | (True, w1) \<Rightarrow>
          (case os_listdir user_upload_path w1 of
             (Inl e, w2) \<Rightarrow> (Inl e, w2)
           | (Inr items, w2) \<Rightarrow>
               (case keep_files user_upload_path [] items [] w2 of
                  (fs, w3) \<Rightarrow>
                    uploads_of uploads_dir names
                      (if fs \<noteq> [] then AList.update user_folder_name fs all_uploads
                       else all_uploads) w3)))"

text \<open>\<^verbatim>\<open>list_uploads()\<close>, the route \<^verbatim>\<open>/api/v1/uploads\<close>.\<close>

definition list_uploads :: "config \<Rightarrow> extlib \<Rightarrow> clock \<Rightarrow> request \<Rightarrow> world \<Rightarrow> response \<times> world" where
  "list_uploads cfg L clk req w =
     (case form_token req of
        None \<Rightarrow> (error_response ''Missing token parameter.'', w)
      | Some token_str \<Rightarrow>
     (case verify_token token_str (now clk) of
        None \<Rightarrow> (error_response ''Invalid or expired token.'', w)
      | Some (user_id, user_folder) \<Rightarrow>
          if user_id \<notin> set (MANAGEMENT_USERS cfg) then (error_response ''Access denied.'', w)
          else
            (let uploads_dir = os_path_join DATA_HOME [''uploads''] in
             case (case os_path_exists uploads_dir w of
                     (False, w1) \<Rightarrow> (Inr [], w1)
                   | (True, w1) \<Rightarrow>
                       (case os_listdir uploads_dir w1 of
                          (Inl e, w2) \<Rightarrow> (Inl e, w2)
                        | (Inr names, w2) \<Rightarrow> uploads_of uploads_dir names [] w2)) of
               (Inl e, w3) \<Rightarrow> (Uncaught e, w3)
             | (Inr all_uploads, w3) \<Rightarrow>
                 logged L clk user_id ''LIST_UPLOADS''
                   (''Found uploads for '' @ str_nat (length all_uploads) @ '' folders'')
                   (\<lambda>w4. (Jsonify False ''Upload files listed.'' (UploadsMap all_uploads), w4))
                   w3)))"

section \<open>The sync channel\<close>

text \<open>\<^verbatim>\<open>sync_upload()\<close>, the route \<^verbatim>\<open>/api/v1/sync_upload\<close>.\<close>

definition sync_upload :: "config \<Rightarrow> extlib \<Rightarrow> clock \<Rightarrow> request \<Rightarrow> world \<Rightarrow> response \<times> world" where
  "sync_upload cfg L clk req w =
     (case form_token req of
        None \<Rightarrow> (missing_parameter L ''token'', w)
      | Some token_str \<Rightarrow>
     (case map_of (form req) ''target_path'' of
        None \<Rightarrow> (missing_parameter L ''target_path'', w)
      | Some target_path \<Rightarrow>
     (case verify_token token_str (now clk) of
        None \<Rightarrow> (error_response ''Invalid or expired token.'', w)
      | Some (user_id, user_folder) \<Rightarrow>
          if user_id \<notin> set (MANAGEMENT_USERS cfg) then (error_response ''Access denied.'', w)
          else
            (case map_of (files req) ''file'' of
               None \<Rightarrow> (error_response ''No file provided.'', w)
             | Some (filename, bytes) \<Rightarrow>
                 if filename = [] then (error_response ''Empty file.'', w)
                 else if sublist ''..'' target_path \<or> prefix ''/'' target_path then
                   (error_response ''Invalid target path.'', w)
                 else if prefix ''uploads/'' target_path \<or> prefix ''logs/'' target_path then
                   (error_response ''Cannot sync to uploads or logs directories.'', w)
                 else
                   (let full_path = os_path_join DATA_HOME [target_path] in
                    case os_makedirs (os_path_dirname full_path) w of
                      (Inl e, w1) \<Rightarrow> (Uncaught e, w1)
                    | (Inr u, w1) \<Rightarrow>
                        (case open_write full_path bytes (now clk) w1 of
                           (Inl e, w2) \<Rightarrow> (Uncaught e, w2)
                         | (Inr u, w2) \<Rightarrow>
                             logged L clk user_id ''SYNC_UPLOAD'' (''File: '' @ target_path)
                               (\<lambda>w3. (Jsonify False ''File synced successfully.''
                                         (SyncedPath target_path), w3)) w2))))))"

text \<open>\<^verbatim>\<open>sync_delete()\<close>, the route \<^verbatim>\<open>/api/v1/sync_delete\<close>.\<close>

definition sync_delete :: "config \<Rightarrow> extlib \<Rightarrow> clock \<Rightarrow> request \<Rightarrow> world \<Rightarrow> response \<times> world" where
  "sync_delete cfg L clk req w =
     (case form_token req of
        None \<Rightarrow> (missing_parameter L ''token'', w)
      | Some token_str \<Rightarrow>
     (case map_of (form req) ''file'' of
        None \<Rightarrow> (missing_parameter L ''file'', w)
      | Some file_path \<Rightarrow>
     (case verify_token token_str (now clk) of
        None \<Rightarrow> (error_response ''Invalid or expired token.'', w)
      | Some (user_id, user_folder) \<Rightarrow>
          if user_id \<notin> set (MANAGEMENT_USERS cfg) then (error_response ''Access denied.'', w)
          else if sublist ''..'' file_path \<or> prefix ''/'' file_path then
            (error_response ''Invalid file path.'', w)
          else if \<not> (prefix ''uploads/'' file_path \<or> prefix ''logs/'' file_path) then
            (error_response ''Can only delete from uploads or logs directories.'', w)
          else
            (let full_path = os_path_join DATA_HOME [file_path] in
             case os_path_exists full_path w of
               (False, w1) \<Rightarrow> (error_response ''File not found.'', w1)
             | (True, w1) \<Rightarrow>
                 (case os_path_isfile full_path w1 of
                    (False, w2) \<Rightarrow> (error_response ''Path is not a file.'', w2)
                  | (True, w2) \<Rightarrow>
                      (case os_remove full_path w2 of
                         (Inl e, w3) \<Rightarrow> (Uncaught e, w3)
                       | (Inr u, w3) \<Rightarrow>
                           logged L clk user_id ''SYNC_DELETE'' (''File: '' @ file_path)
                             (\<lambda>w4. (Jsonify False ''File deleted successfully.'' NoPayload, w4))
                             w3))))))"

section \<open>Metadata\<close>

text \<open>
  The body of the inner loop of \<^verbatim>\<open>file_metadata\<close> for one file name \<open>file\<close> of the
  directory \<open>rt\<close>. \<open>read_record\<close> is the \<^verbatim>\<open>try\<close> block up to the record it builds
  (\<^verbatim>\<open>os.stat\<close>, \<^verbatim>\<open>open\<close>, \<^verbatim>\<open>read\<close>, \<^verbatim>\<open>sha256\<close>); the record is stored under the relative
  path, and the \<^verbatim>\<open>except\<close> block logs the failure instead. An exception of the logging
  itself leaves the handler.
\<close>

definition read_record :: "extlib \<Rightarrow> string \<Rightarrow> world \<Rightarrow> (exn + file_record) \<times> world" where
  "read_record L file_path w =
     (case os_stat file_path w of
        (Inl e, w1) \<Rightarrow> (Inl e, w1)
      | (Inr stat, w1) \<Rightarrow>
          (case open_read file_path w1 of
             (Inl e, w2) \<Rightarrow> (Inl e, w2)
           | (Inr content, w2) \<Rightarrow>
               (Inr \<lparr> rec_size = st_size stat, rec_mtime = st_mtime stat,
                      rec_hash = sha256_hexdigest L content \<rparr>, w2)))"

text \<open>\<^verbatim>\<open>os.path.relpath(file_path, DATA_HOME).replace('\\', '/')\<close>, and the text of the log
  entry for a failure.\<close>

definition rel_path_of :: "world \<Rightarrow> string \<Rightarrow> string" where
  "rel_path_of w file_path = replace_backslash (os_path_relpath w file_path DATA_HOME)"

definition metadata_error :: "extlib \<Rightarrow> string \<Rightarrow> exn \<Rightarrow> string" where
  "metadata_error L rel_path e = ''File: '' @ rel_path @ '', Error: '' @ str_exn L e"

definition metadata_file ::
  "extlib \<Rightarrow> clock \<Rightarrow> string \<Rightarrow> string \<Rightarrow> string \<Rightarrow> (string \<times> file_record) list \<Rightarrow> world
     \<Rightarrow> (exn + (string \<times> file_record) list) \<times> world" where
  "metadata_file L clk user_id rt file metadata w =
     (let file_path = os_path_join rt [file];
          rel_path = rel_path_of w file_path
      in case read_record L file_path w of
           (Inr record, w1) \<Rightarrow> (Inr (AList.update rel_path record metadata), w1)
         | (Inl e, w1) \<Rightarrow>
             (case log_sync_operation L clk user_id ''METADATA_ERROR''
                     (metadata_error L rel_path e) w1 of
                (Inl e', w2) \<Rightarrow> (Inl e', w2)
              | (Inr u, w2) \<Rightarrow> (Inr metadata, w2)))"

fun metadata_files ::
  "extlib \<Rightarrow> clock \<Rightarrow> string \<Rightarrow> string \<Rightarrow> string list \<Rightarrow> (string \<times> file_record) list \<Rightarrow> world
     \<Rightarrow> (exn + (string \<times> file_record) list) \<times> world" where
  "metadata_files L clk user_id rt [] metadata w = (Inr metadata, w)"
| "metadata_files L clk user_id rt (file # fs) metadata w =
     (case metadata_file L clk user_id rt file metadata w of
        (Inl e, w1) \<Rightarrow> (Inl e, w1)
      | (Inr metadata', w1) \<Rightarrow> metadata_files L clk user_id rt fs metadata' w1)"

fun metadata_walk ::
  "extlib \<Rightarrow> clock \<Rightarrow> string \<Rightarrow> (string \<times> string list \<times> string list) list
     \<Rightarrow> (string \<times> file_record) list \<Rightarrow> world
     \<Rightarrow> (exn + (string \<times> file_record) list) \<times> world" where
  "metadata_walk L clk user_id [] metadata w = (Inr metadata, w)"
| "metadata_walk L clk user_id ((rt, dirs, fs) # rest) metadata w =
     (case metadata_files L clk user_id rt fs metadata w of
        (Inl e, w1) \<Rightarrow> (Inl e, w1)
      | (Inr metadata', w1) \<Rightarrow> metadata_walk L clk user_id rest metadata' w1)"

text \<open>
  The walk of \<^verbatim>\<open>file_metadata\<close> over \<^verbatim>\<open>downloads_dir\<close>. \<^verbatim>\<open>os.walk\<close> is a generator; the
  loop body writes the day's log only, under \<^verbatim>\<open>logs/\<close>, so the directories are listed here
  before the loop runs.
\<close>

definition downloads_path :: string where
  "downloads_path = os_path_join DATA_HOME [''downloads'']"

definition walk_downloads ::
  "extlib \<Rightarrow> clock \<Rightarrow> string \<Rightarrow> world \<Rightarrow> (exn + (string \<times> file_record) list) \<times> world" where
  "walk_downloads L clk user_id w =
     (let downloads_dir = downloads_path in
      case os_path_exists downloads_dir w of
        (False, w1) \<Rightarrow> (Inr [], w1)
      | (True, w1) \<Rightarrow>
          (case os_walk downloads_dir w1 of
             (triples, w2) \<Rightarrow> metadata_walk L clk user_id triples [] w2))"

text \<open>\<^verbatim>\<open>file_metadata()\<close>, the route \<^verbatim>\<open>/api/v1/file_metadata\<close>.\<close>

definition file_metadata :: "config \<Rightarrow> extlib \<Rightarrow> clock \<Rightarrow> request \<Rightarrow> world \<Rightarrow> response \<times> world" where
  "file_metadata cfg L clk req w =
     (case form_token req of
        None \<Rightarrow> (missing_parameter L ''token'', w)
      | Some token_str \<Rightarrow>
     (case verify_token token_str (now clk) of
        None \<Rightarrow> (error_response ''Invalid or expired token.'', w)
      | Some (user_id, user_folder) \<Rightarrow>
          if user_id \<notin> set (MANAGEMENT_USERS cfg) then (error_response ''Access denied.'', w)
          else
            (case walk_downloads L clk user_id w of
               (Inl e, w3) \<Rightarrow> (Uncaught e, w3)
             | (Inr metadata, w3) \<Rightarrow>
                 logged L clk user_id ''METADATA_REQUEST''
                   (''Files: '' @ str_nat (length metadata))
                   (\<lambda>w4. (Jsonify False ''Metadata retrieved.'' (Metadata metadata), w4)) w3)))"

section \<open>Folders\<close>

text \<open>\<^verbatim>\<open>create_folder()\<close>, the route \<^verbatim>\<open>/api/v1/create_folder\<close>.\<close>

definition create_folder :: "config \<Rightarrow> extlib \<Rightarrow> clock \<Rightarrow> request \<Rightarrow> world \<Rightarrow> response \<times> world" where
  "create_folder cfg L clk req w =
     (case form_token req of
        None \<Rightarrow> (missing_parameter L ''token'', w)
      | Some token_str \<Rightarrow>
     (case map_of (form req) ''folder'' of
        None \<Rightarrow> (missing_parameter L ''folder'', w)
      | Some folder_name \<Rightarrow>
     (case verify_token token_str (now clk) of
        None \<Rightarrow> (error_response ''Invalid or expired token.'', w)
      | Some (user_id, user_folder) \<Rightarrow>
          if user_id \<notin> set (MANAGEMENT_USERS cfg) then (error_response ''Access denied.'', w)
          else if folder_name = [] \<or>
                  \<not> isalnum L (filter (\<lambda>c. c \<noteq> CHR ''_'' \<and> c \<noteq> CHR ''-'') folder_name) then
            (error_response ''Invalid folder name. Use only letters, numbers, _ and -'', w)
          else
            (case ensure_user_directories folder_name w of
               (Inl e, w1) \<Rightarrow> (Uncaught e, w1)
             | (Inr u, w1) \<Rightarrow>
                 logged L clk user_id ''CREATE_FOLDER'' (''Created folder: '' @ folder_name)
                   (\<lambda>w2. (Jsonify False
                            (''Folder '' @ [quote] @ folder_name @ [quote]
                             @ '' created successfully.'')
                            (FolderCreated folder_name), w2)) w1))))"

section \<open>Vocabulary of the claims and a sample installation\<close>

text \<open>The path guard's two lexical notions (section 4.3 of the specification).\<close>

definition has_parent_segment :: "string \<Rightarrow> bool" where
  "has_parent_segment p = (''..'' \<in> set (splitp p))"

definition is_absolute :: "string \<Rightarrow> bool" where
  "is_absolute p = prefix ''/'' p"

text \<open>
  A sample installation, on which the theorems below are instantiated: the module of the
  server is in \<^verbatim>\<open>/srv\<close> and the server runs there, its data root holds two global downloads and the folders of two users, and one
  file of \<^verbatim>\<open>U002\<close> is unreadable. The library stands in for the real one: its JSON codec
  writes the fields of the log entries one after the other, each character behind a
  marker, and reads them back.
\<close>

definition demo_clock :: clock where
  "demo_clock =
     \<lparr> now = 1000, now_isoformat = ''2024-01-01T00:16:40'', today_isoformat = ''2024-01-01'' \<rparr>"

definition enc_str :: "string \<Rightarrow> string" where
  "enc_str s = concat (map (\<lambda>c. [CHR ''c'', c]) s) @ ''e''"

fun dec_strs :: "string \<Rightarrow> string \<Rightarrow> string list" where
  "dec_strs acc [] = []"
| "dec_strs acc (x # xs) =
     (if x = CHR ''e'' then rev acc # dec_strs [] xs
      else (case xs of [] \<Rightarrow> [] | y # ys \<Rightarrow> dec_strs (y # acc) ys))"

fun entry_fields :: "json \<Rightarrow> string list" where
  "entry_fields (JDict [(k1, JStr a), (k2, JStr b), (k3, JStr c), (k4, JStr d)]) = [a, b, c, d]"
| "entry_fields v = []"

fun entries_of :: "string list \<Rightarrow> json list" where
  "entries_of (a # b # c # d # rest) =
     JDict [(''timestamp'', JStr a), (''user_id'', JStr b), (''operation'', JStr c),
            (''details'', JStr d)] # entries_of rest"
| "entries_of rest = []"

definition demo_dump :: "json \<Rightarrow> string" where
  "demo_dump v =
     (case v of JList l \<Rightarrow> concat (map enc_str (concat (map entry_fields l))) | _ \<Rightarrow> [])"

definition demo_load :: "string \<Rightarrow> exn + json" where
  "demo_load s = Inr (JList (entries_of (dec_strs [] s)))"

definition demo_lib :: extlib where
  "demo_lib =
     \<lparr> sha256_hexdigest = (\<lambda>b. ''sha256:'' @ b),
       json_load = demo_load,
       json_dump = demo_dump,
       repr_list = concat,
       str_exn = (\<lambda>e. ''error''),
       isalnum = (\<lambda>s. True),
       root_path = ''/srv'' \<rparr>"

definition demo_world :: world where
  "demo_world =
     \<lparr> root = Dir [(''srv'', Dir
         [(''secret.txt'', File ''top secret'' 7 True),
          (''dataroot'', Dir
            [(''downloads'', Dir
               [(''a.txt'', File ''global a'' 1 True),
                (''b.txt'', File ''global b'' 2 True),
                (''users'', Dir
                  [(''U001'', Dir [(''a.txt'', File ''a of U001'' 3 True)]),
                   (''U002'', Dir [(''c.txt'', File ''c of U002'' 4 False)])])]),
             (''uploads'', Dir [(''U001'', Dir []), (''U002'', Dir [])]),
             (''logs'', Dir [])])])],
       cwd = [''srv''],
       trace = [] \<rparr>"

definition demo_token :: "string \<Rightarrow> string \<Rightarrow> int \<Rightarrow> token_str" where
  "demo_token u f e =
     jwt_encode \<lparr> claim_user_id = Some u, claim_user_folder = Some f, claim_exp = Some e \<rparr>
       JWT_KEY"

definition demo_request ::
  "token_str \<Rightarrow> (string \<times> string) list \<Rightarrow> (string \<times> string \<times> string) list \<Rightarrow> request" where
  "demo_request tok kvs fls = \<lparr> form_token = Some tok, form = kvs, files = fls \<rparr>"

text \<open>
  A well-formed tree: the names of a directory are distinct, and none is empty, \<open>.\<close>,
  \<open>..\<close> or has a slash, as in every real file system.
\<close>

definition valid_name :: "string \<Rightarrow> bool" where
  "valid_name n = (n \<noteq> [] \<and> n \<noteq> ''.'' \<and> n \<noteq> ''..'' \<and> sep \<notin> set n)"

fun wf_node :: "node \<Rightarrow> bool" where
  "wf_node (File b m r) = True"
| "wf_node (Dir es) =
     (distinct (map fst es) \<and> (\<forall>e \<in> set es. valid_name (fst e) \<and> wf_node (snd e)))"



definition is_json_list :: "json \<Rightarrow> bool" where
  "is_json_list v = (case v of JList logs \<Rightarrow> True | _ \<Rightarrow> False)"

definition log_ready :: "extlib \<Rightarrow> clock \<Rightarrow> world \<Rightarrow> bool" where
  "log_ready L clk w =
     (case path_loc w (log_file clk) of
        None \<Rightarrow> False
      | Some l \<Rightarrow>
          (case lookup l (root w) of
             None \<Rightarrow> l \<noteq> [] \<and> is_dir (lookup (butlast l) (root w))
           | Some (Dir es) \<Rightarrow> False
           | Some (File b m r) \<Rightarrow>
               r \<and> (case json_load L b of
                      Inl e \<Rightarrow> e = JSONDecodeError
                    | Inr v \<Rightarrow> is_json_list v)))"

definition current_logs :: "extlib \<Rightarrow> clock \<Rightarrow> world \<Rightarrow> json list" where
  "current_logs L clk w =
     (case stat_node w (log_file clk) of
        Some (File b m r) \<Rightarrow> (case json_load L b of Inr (JList logs) \<Rightarrow> logs | _ \<Rightarrow> [])
      | _ \<Rightarrow> [])"

text \<open>Two worlds that differ at most in the file at location \<open>ll\<close>.\<close>

definition same_but :: "string list option \<Rightarrow> world \<Rightarrow> world \<Rightarrow> bool" where
  "same_but ll w w' =
     (cwd w' = cwd w
      \<and> (\<forall>l. is_dir (lookup l (root w')) = is_dir (lookup l (root w)))
      \<and> (\<forall>l. (\<forall>x. ll = Some x \<longrightarrow> \<not> prefix l x) \<longrightarrow> lookup l (root w') = lookup l (root w)))"

text \<open>The two paths that \<open>download_file_auto\<close> tries for a file name.\<close>

definition user_file_path :: "string \<Rightarrow> string \<Rightarrow> string" where
  "user_file_path F n = os_path_join DATA_HOME [''downloads'', ''users'', F, n]"

definition global_file_path :: "string \<Rightarrow> string" where
  "global_file_path n = os_path_join DATA_HOME [''downloads'', n]"

text \<open>The routes of the application that take a token, and the handler of each.\<close>

datatype route =
    Downloads
  | Download_auto
  | Download
  | Upload
  | Uploads
  | Sync_upload
  | Sync_delete
  | File_metadata
  | Create_folder

fun dispatch :: "config \<Rightarrow> extlib \<Rightarrow> clock \<Rightarrow> route \<Rightarrow> request \<Rightarrow> world \<Rightarrow> response \<times> world" where
  "dispatch cfg L clk Downloads = list_downloads L clk"
| "dispatch cfg L clk Download_auto = download_file_auto L clk"
| "dispatch cfg L clk Download = download_file L clk"
| "dispatch cfg L clk Upload = upload_files L clk"
| "dispatch cfg L clk Uploads = list_uploads cfg L clk"
| "dispatch cfg L clk Sync_upload = sync_upload cfg L clk"
| "dispatch cfg L clk Sync_delete = sync_delete cfg L clk"
| "dispatch cfg L clk File_metadata = file_metadata cfg L clk"
| "dispatch cfg L clk Create_folder = create_folder cfg L clk"

text \<open>
  Vocabulary for the metadata walk, over the world \<open>w\<close> in which the walk starts: the
  directory walked; the record of one file (a readable regular file has one) and the
  exception that reading it raises otherwise; the key under which it is stored; the paths
  the walk visits, in its order; the map that holds the record of every visited file that
  has one; and the log entries of those that have none.
\<close>

definition file_record_of :: "extlib \<Rightarrow> world \<Rightarrow> string \<Rightarrow> file_record option" where
  "file_record_of L w p =
     (case stat_node w p of
        Some (File b m r) \<Rightarrow>
          if r then Some \<lparr> rec_size = length b, rec_mtime = m, rec_hash = sha256_hexdigest L b \<rparr>
          else None
      | _ \<Rightarrow> None)"

definition file_failure :: "world \<Rightarrow> string \<Rightarrow> exn" where
  "file_failure w p =
     (case stat_node w p of
        None \<Rightarrow> FileNotFoundError p
      | Some (Dir es) \<Rightarrow> IsADirectoryError p
      | Some (File b m r) \<Rightarrow> PermissionError p)"

definition walk_files :: "(string \<times> string list \<times> string list) list \<Rightarrow> string list" where
  "walk_files triples = concat (map (\<lambda>(rt, dirs, fs). map (\<lambda>f. os_path_join rt [f]) fs) triples)"

fun collect ::
  "extlib \<Rightarrow> world \<Rightarrow> string list \<Rightarrow> (string \<times> file_record) list \<Rightarrow> (string \<times> file_record) list"
  where
  "collect L w [] metadata = metadata"
| "collect L w (p # ps) metadata =
     collect L w ps
       (case file_record_of L w p of
          None \<Rightarrow> metadata
        | Some record \<Rightarrow> AList.update (rel_path_of w p) record metadata)"

fun error_entries :: "extlib \<Rightarrow> clock \<Rightarrow> string \<Rightarrow> world \<Rightarrow> string list \<Rightarrow> json list" where
  "error_entries L clk user_id w [] = []"
| "error_entries L clk user_id w (p # ps) =
     (case file_record_of L w p of
        None \<Rightarrow>
          [log_entry clk user_id ''METADATA_ERROR''
             (metadata_error L (rel_path_of w p) (file_failure w p))]
      | Some record \<Rightarrow> [])
     @ error_entries L clk user_id w ps"

text \<open>
  What the walk asks of the JSON library: a log that was written, the entries made so far
  appended to those it held at the start, is read back as written.
\<close>

definition entry_json :: "string \<times> string \<times> string \<times> string \<Rightarrow> json" where
  "entry_json e =
     (case e of (timestamp, user_id, operation, details) \<Rightarrow>
        JDict [(''timestamp'', JStr timestamp), (''user_id'', JStr user_id),
               (''operation'', JStr operation), (''details'', JStr details)])"

definition json_keeps_logs :: "extlib \<Rightarrow> json list \<Rightarrow> bool" where
  "json_keeps_logs L old =
     (\<forall>es. json_load L (json_dump L (JList (old @ map entry_json es)))
             = Inr (JList (old @ map entry_json es)))"

text \<open>A path that does not resolve to the location \<open>LL\<close> or to a directory above it.\<close>

definition safe_path :: "string list option \<Rightarrow> world \<Rightarrow> string \<Rightarrow> bool" where
  "safe_path LL w p = (\<forall>l x. path_loc w p = Some l \<and> LL = Some x \<longrightarrow> \<not> prefix l x)"

text \<open>
  The paths a metadata walk visits when it starts in \<open>w\<close>, the tree under
  \<^verbatim>\<open>downloads/\<close> being well formed, and further sample values.
\<close>

definition visited :: "world \<Rightarrow> string list" where
  "visited w = walk_files (fst (os_walk downloads_path w))"

definition wf_downloads :: "world \<Rightarrow> bool" where
  "wf_downloads w = (case stat_node w downloads_path of None \<Rightarrow> True | Some d \<Rightarrow> wf_node d)"

definition demo_clock_later :: clock where
  "demo_clock_later =
     \<lparr> now = 1100, now_isoformat = ''2024-01-01T00:18:20'', today_isoformat = ''2024-01-01'' \<rparr>"

definition demo_metadata :: "(string \<times> file_record) list" where
  "demo_metadata =
     [(''downloads/a.txt'',
       \<lparr>rec_size = 8, rec_mtime = 1, rec_hash = ''sha256:global a''\<rparr>),
      (''downloads/b.txt'',
       \<lparr>rec_size = 8, rec_mtime = 2, rec_hash = ''sha256:global b''\<rparr>),
      (''downloads/users/U001/a.txt'',
       \<lparr>rec_size = 9, rec_mtime = 3, rec_hash = ''sha256:a of U001''\<rparr>)]"

definition demo_sync_request :: request where
  "demo_sync_request = demo_request (demo_token ''sync_client'' ''sync_client'' 1300) [] []"

text \<open>The invariant of the walk on the day's log: it can be written, and it holds the entries
  \<open>old\<close> of the start and then entries of the server's own.\<close>

definition log_inv :: "extlib \<Rightarrow> clock \<Rightarrow> json list \<Rightarrow> world \<Rightarrow> bool" where
  "log_inv L clk old w =
     (log_ready L clk w \<and> (\<exists>es. current_logs L clk w = old @ map entry_json es))"

section \<open>Properties of folder resolution\<close>

text \<open>
  Claim C2. Folder resolution is a total function of the subject, its role, the requested
  folder and the restricted-mode flag, and on every input it returns what the three rules
  of the specification say: a Management subject gets the requested folder when that is
  non-empty and its own id otherwise, and is never denied; a Regular subject in restricted
  mode is denied exactly when the requested folder is non-empty and differs from its id,
  and gets its own id otherwise; a Regular subject in unrestricted mode gets the requested
  folder when non-empty and its own id otherwise.
\<close>

theorem get_user_folder_is_spec_resolve:
  "resolution_of (get_user_folder cfg subject requestedFolder) =
     spec_resolve subject (role_of cfg subject) requestedFolder (RESTRICTED cfg)"
  by (cases requestedFolder; cases "RESTRICTED cfg")
     (simp_all add: get_user_folder_def role_of_def resolution_of_def truthy_def non_empty_def)

section \<open>Splitting a path\<close>

lemma splitp_nonempty: "splitp s \<noteq> []"
  by (induction s) (auto split: list.splits)

lemma hd_splitp_prefix: "prefix (hd (splitp s)) s"
  by (induction s) (auto split: list.splits simp: splitp_nonempty)

text \<open>Every component of a path is a contiguous run of it.\<close>

lemma splitp_sublist: "c \<in> set (splitp s) \<Longrightarrow> sublist c s"
proof (induction s arbitrary: c)
  case Nil
  then show ?case by simp
next
  case (Cons x xs)
  show ?case
  proof (cases "x = sep")
    case True
    with Cons.prems have "c = [] \<or> c \<in> set (splitp xs)" by auto
    then show ?thesis using Cons.IH by (auto simp: sublist_Cons_right)
  next
    case False
    obtain y ys where sp: "splitp xs = y # ys"
      using splitp_nonempty [of xs] by (cases "splitp xs") auto
    with False Cons.prems have "c = x # y \<or> c \<in> set ys" by auto
    then show ?thesis
    proof
      assume "c = x # y"
      moreover have "prefix y xs" using hd_splitp_prefix [of xs] sp by simp
      ultimately show ?thesis by (simp add: sublist_Cons_right)
    next
      assume "c \<in> set ys"
      then have "c \<in> set (splitp xs)" using sp by simp
      then show ?thesis using Cons.IH by (simp add: sublist_Cons_right)
    qed
  qed
qed

lemma demo_verify:
  "e > 1000 \<Longrightarrow> verify_token (demo_token u f e) (now demo_clock) = Some (u, Some f)"
  by (simp add: verify_token_def jwt_decode_def demo_token_def jwt_encode_def demo_clock_def)

section \<open>Rejection on the sync channel\<close>

text \<open>
  Claim C5. For a Management caller, sync-place (\<open>sync_upload\<close>) rejects a target path
  that contains a parent-directory segment, is absolute, or starts with \<^verbatim>\<open>uploads/\<close> or
  \<^verbatim>\<open>logs/\<close>, and sync-remove (\<open>sync_delete\<close>) rejects a target path that contains a
  parent-directory segment, is absolute, or does not start with \<^verbatim>\<open>uploads/\<close> or \<^verbatim>\<open>logs/\<close>.
  In each rejected case the answer is an error and the world afterwards is the world
  before: the tree is unchanged and no call to the file system was recorded.
\<close>

theorem sync_rejected_without_access:
  assumes "form_token req = Some tok"
    and "verify_token tok (now clk) = Some (user_id, user_folder)"
    and "user_id \<in> set (MANAGEMENT_USERS cfg)"
  shows "(map_of (form req) ''target_path'' = Some t \<and>
            (has_parent_segment t \<or> is_absolute t \<or> prefix ''uploads/'' t \<or> prefix ''logs/'' t)
          \<longrightarrow> fst (sync_upload cfg L clk req w) \<in>
                 {error_response ''No file provided.'', error_response ''Empty file.'',
                  error_response ''Invalid target path.'',
                  error_response ''Cannot sync to uploads or logs directories.''}
              \<and> snd (sync_upload cfg L clk req w) = w)
       \<and> (map_of (form req) ''file'' = Some t \<and>
            (has_parent_segment t \<or> is_absolute t \<or>
             \<not> (prefix ''uploads/'' t \<or> prefix ''logs/'' t))
          \<longrightarrow> fst (sync_delete cfg L clk req w) \<in>
                 {error_response ''Invalid file path.'',
                  error_response ''Can only delete from uploads or logs directories.''}
              \<and> snd (sync_delete cfg L clk req w) = w)"
proof -
  have seg: "has_parent_segment t \<Longrightarrow> sublist ''..'' t"
    unfolding has_parent_segment_def by (rule splitp_sublist)
  show ?thesis
    using assms seg
    by (auto simp: sync_upload_def sync_delete_def is_absolute_def split: option.splits)
qed

theorem sync_rejected_without_access_witness:
  "sync_upload default_config demo_lib demo_clock
      (demo_request (demo_token ''sync_client'' ''sync_client'' 1300)
         [(''target_path'', ''downloads/../logs/x''), (''file'', ''downloads/../logs/x'')]
         [(''file'', ''x'', ''bytes'')])
      demo_world = (error_response ''Invalid target path.'', demo_world)
   \<and> sync_delete default_config demo_lib demo_clock
      (demo_request (demo_token ''sync_client'' ''sync_client'' 1300)
         [(''target_path'', ''downloads/../logs/x''), (''file'', ''downloads/../logs/x'')]
         [(''file'', ''x'', ''bytes'')])
      demo_world = (error_response ''Invalid file path.'', demo_world)"
proof -
  let ?tok = "demo_token ''sync_client'' ''sync_client'' 1300"
  let ?req = "demo_request ?tok
      [(''target_path'', ''downloads/../logs/x''), (''file'', ''downloads/../logs/x'')]
      [(''file'', ''x'', ''bytes'')]"
  have h1: "form_token ?req = Some ?tok" by (simp add: demo_request_def)
  have h2: "verify_token ?tok (now demo_clock) = Some (''sync_client'', Some ''sync_client'')"
    by (simp add: demo_verify)
  have h3: "''sync_client'' \<in> set (MANAGEMENT_USERS default_config)"
    by (simp add: default_config_def)
  have h4: "map_of (form ?req) ''target_path'' = Some ''downloads/../logs/x''"
    by (simp add: demo_request_def)
  have h5: "map_of (form ?req) ''file'' = Some ''downloads/../logs/x''"
    by (simp add: demo_request_def)
  have h6: "has_parent_segment ''downloads/../logs/x''"
    by (simp add: has_parent_segment_def sep_def)
  have sub: "sublist ''..'' ''downloads/../logs/x''"
    using h6 unfolding has_parent_segment_def by (rule splitp_sublist)
  have up: "fst (sync_upload default_config demo_lib demo_clock ?req demo_world)
              = error_response ''Invalid target path.''"
    using h2 h3 sub by (simp add: sync_upload_def demo_request_def)
  have del: "fst (sync_delete default_config demo_lib demo_clock ?req demo_world)
              = error_response ''Invalid file path.''"
    using h2 h3 sub by (simp add: sync_delete_def demo_request_def)
  from sync_rejected_without_access [OF h1 h2 h3, of "''downloads/../logs/x''" demo_lib demo_world]
    h4 h5 h6
  have "snd (sync_upload default_config demo_lib demo_clock ?req demo_world) = demo_world"
    and "snd (sync_delete default_config demo_lib demo_clock ?req demo_world) = demo_world"
    by blast+
  with up del show ?thesis by (simp add: prod_eq_iff)
qed

section \<open>Basic facts about the recorded calls\<close>

lemma traced_fields [simp]:
  "root (traced e w) = root w" "cwd (traced e w) = cwd w" "trace (traced e w) = trace w @ [e]"
  by (simp_all add: traced_def)

lemma path_loc_cong: "root w' = root w \<Longrightarrow> cwd w' = cwd w \<Longrightarrow> path_loc w' p = path_loc w p"
  by (simp add: path_loc_def)

lemma stat_node_cong: "root w' = root w \<Longrightarrow> cwd w' = cwd w \<Longrightarrow> stat_node w' p = stat_node w p"
  by (simp add: stat_node_def path_loc_def split: option.splits)

lemma path_loc_traced [simp]: "path_loc (traced e w) p = path_loc w p"
  by (simp add: path_loc_def)

lemma stat_node_traced [simp]: "stat_node (traced e w) p = stat_node w p"
  by (rule stat_node_cong) simp_all

lemma exists_and_isfile_fst: "fst (exists_and_isfile p w) = is_file (stat_node w p)"
  by (cases "stat_node w p")
     (auto simp: exists_and_isfile_def os_path_exists_def os_path_isfile_def)


section \<open>Exact download\<close>

text \<open>
  Claim C4. For an authenticated caller with resolved folder \<open>F\<close> and a requested path
  \<open>p\<close>: download-exact (\<open>download_file\<close>) sends a file only when \<open>p\<close> starts with
  \<^verbatim>\<open>downloads/\<close>; a path that starts with \<^verbatim>\<open>downloads/users/\<close> but not with
  \<^verbatim>\<open>downloads/users/F/\<close> is denied, before any access to the store; and a path that passes
  both checks and names no existing regular file is answered with not-found, not with a denial.
\<close>

theorem download_file_access_rule:
  assumes "form_token req = Some tok"
    and "verify_token tok (now clk) = Some (user_id, Some F)"
    and "F \<noteq> []"
    and "map_of (form req) ''file'' = Some p"
  shows "((\<exists>b. fst (download_file L clk req w) = SendFile b) \<longrightarrow> prefix ''downloads/'' p)
       \<and> (prefix ''downloads/users/'' p \<and> \<not> prefix (''downloads/users/'' @ F @ ''/'') p
            \<longrightarrow> download_file L clk req w
                  = (error_response ''Access denied to requested file.'', w))
       \<and> (prefix ''downloads/'' p
            \<and> (prefix ''downloads/users/'' p \<longrightarrow> prefix (''downloads/users/'' @ F @ ''/'') p)
            \<and> \<not> is_file (stat_node w (os_path_join DATA_HOME [p]))
            \<longrightarrow> fst (download_file L clk req w) = error_response ''File not found.'')"
proof (intro conjI impI)
  assume "\<exists>b. fst (download_file L clk req w) = SendFile b"
  then show "prefix ''downloads/'' p"
    using assms
    by (auto simp: download_file_def download_allowed_def error_response_def split: if_splits)
next
  assume "prefix ''downloads/users/'' p \<and> \<not> prefix (''downloads/users/'' @ F @ ''/'') p"
  then show "download_file L clk req w = (error_response ''Access denied to requested file.'', w)"
    using assms by (simp add: download_file_def download_allowed_def str_opt_def)
next
  assume a: "prefix ''downloads/'' p
     \<and> (prefix ''downloads/users/'' p \<longrightarrow> prefix (''downloads/users/'' @ F @ ''/'') p)
     \<and> \<not> is_file (stat_node w (os_path_join DATA_HOME [p]))"
  then have ok: "download_allowed p (Some F)"
    using assms by (auto simp: download_allowed_def str_opt_def truthy_def)
  from a have "fst (exists_and_isfile (os_path_join DATA_HOME [p]) w) = False"
    by (simp add: exists_and_isfile_fst)
  then obtain w1 where "exists_and_isfile (os_path_join DATA_HOME [p]) w = (False, w1)"
    by (cases "exists_and_isfile (os_path_join DATA_HOME [p]) w") auto
  then show "fst (download_file L clk req w) = error_response ''File not found.''"
    using assms ok by (simp add: download_file_def)
qed

theorem download_file_access_rule_witness:
  "fst (download_file demo_lib demo_clock
          (demo_request (demo_token ''U001'' ''U001'' 1300) [(''file'', ''downloads/a.txt'')] [])
          demo_world) = SendFile ''global a''
   \<and> prefix ''downloads/'' ''downloads/a.txt''
   \<and> download_file demo_lib demo_clock
          (demo_request (demo_token ''U001'' ''U001'' 1300)
             [(''file'', ''downloads/users/U002/c.txt'')] [])
          demo_world = (error_response ''Access denied to requested file.'', demo_world)
   \<and> fst (download_file demo_lib demo_clock
          (demo_request (demo_token ''U001'' ''U001'' 1300)
             [(''file'', ''downloads/missing.txt'')] [])
          demo_world) = error_response ''File not found.''"
proof -
  let ?tok = "demo_token ''U001'' ''U001'' 1300"
  have v: "verify_token ?tok (now demo_clock) = Some (''U001'', Some ''U001'')"
    by (simp add: demo_verify)
  have f: "''U001'' \<noteq> []" by simp
  have sent: "fst (download_file demo_lib demo_clock
          (demo_request ?tok [(''file'', ''downloads/a.txt'')] []) demo_world)
        = SendFile ''global a''"
    by code_simp
  have absent:
    "\<not> is_file (stat_node demo_world (os_path_join DATA_HOME [''downloads/missing.txt'']))"
    by code_simp
  have r1: "prefix ''downloads/'' ''downloads/a.txt''"
    using download_file_access_rule
      [of "demo_request ?tok [(''file'', ''downloads/a.txt'')] []" ?tok demo_clock
          "''U001''" "''U001''" "''downloads/a.txt''" demo_lib demo_world] v f sent
    by (simp add: demo_request_def)
  have r2: "download_file demo_lib demo_clock
          (demo_request ?tok [(''file'', ''downloads/users/U002/c.txt'')] []) demo_world
        = (error_response ''Access denied to requested file.'', demo_world)"
    using download_file_access_rule
      [of "demo_request ?tok [(''file'', ''downloads/users/U002/c.txt'')] []" ?tok demo_clock
          "''U001''" "''U001''" "''downloads/users/U002/c.txt''" demo_lib demo_world] v f
    by (simp add: demo_request_def)
  have r3: "fst (download_file demo_lib demo_clock
          (demo_request ?tok [(''file'', ''downloads/missing.txt'')] []) demo_world)
        = error_response ''File not found.''"
    using download_file_access_rule
      [of "demo_request ?tok [(''file'', ''downloads/missing.txt'')] []" ?tok demo_clock
          "''U001''" "''U001''" "''downloads/missing.txt''" demo_lib demo_world] v f absent
    by (simp add: demo_request_def)
  from sent r1 r2 r3 show ?thesis by simp
qed

section \<open>Issue, then verify\<close>

lemma demo_issue:
  "fst (token default_config demo_lib demo_clock
          \<lparr> form_token = None, form = [(''user'', ''U001''), (''password'', ''password1'')],
            files = [] \<rparr> demo_world)
   = Jsonify False ''Token valid for 300 seconds.''
       (TokenIssued (demo_token ''U001'' ''U001'' 1300) ''U001'')"
  by code_simp

text \<open>
  Claim C7. For a valid pair of subject and secret and any requested folder for which
  \<open>token\<close> issues a token, \<open>verify_token\<close> on that token at any time before its expiry
  (the time of issue plus \<open>TOKEN_DURATION\<close>) succeeds and returns the same subject and
  the folder that the issue assigned, which is the one \<open>get_user_folder\<close> resolved.
\<close>

theorem issue_then_verify:
  assumes "map_of (form req) ''user'' = Some subject"
    and "map_of (form req) ''password'' = Some secret"
    and "map_of (jwt_users cfg) subject = Some secret"
    and "fst (token cfg L clk req w) = Jsonify False msg (TokenIssued tok folder)"
    and "t < now clk + TOKEN_DURATION"
  shows "verify_token tok t = Some (subject, Some folder)
       \<and> get_user_folder cfg subject (map_of (form req) ''folder'') = Some folder"
  using assms
  by (auto simp: token_def logged_def error_response_def verify_token_def jwt_decode_def
        jwt_encode_def Let_def
      split: option.splits prod.splits sum.splits if_splits)

theorem issue_then_verify_witness:
  "verify_token (demo_token ''U001'' ''U001'' 1300) 1000 = Some (''U001'', Some ''U001'')
   \<and> get_user_folder default_config ''U001'' None = Some ''U001''"
proof -
  let ?req = "\<lparr> form_token = None, form = [(''user'', ''U001''), (''password'', ''password1'')],
                 files = [] \<rparr>"
  have h1: "map_of (form ?req) ''user'' = Some ''U001''" by simp
  have h2: "map_of (form ?req) ''password'' = Some ''password1''" by simp
  have h3: "map_of (jwt_users default_config) ''U001'' = Some ''password1''"
    by (simp add: default_config_def)
  have h5: "(1000::int) < now demo_clock + TOKEN_DURATION"
    by (simp add: demo_clock_def TOKEN_DURATION_def)
  from issue_then_verify [OF h1 h2 h3 demo_issue h5] show ?thesis by simp
qed

section \<open>Escape from the data root\<close>

text \<open>
  Claim C1 says that every path a boundary operation reads or writes lies under the data
  root, and that a caller-supplied path with a parent-directory segment is rejected before
  any storage access. On the sample installation, \<open>download_file\<close> accepts the path
  \<^verbatim>\<open>downloads/../../secret.txt\<close>, which has a parent-directory segment, and sends
  \<^verbatim>\<open>/srv/secret.txt\<close>, a file outside the data root \<^verbatim>\<open>/srv/dataroot\<close>; and \<open>upload_files\<close>
  stores an upload named \<^verbatim>\<open>../../../planted.txt\<close> as \<^verbatim>\<open>/srv/planted.txt\<close>.
\<close>

theorem download_and_upload_escape_data_root:
  "has_parent_segment ''downloads/../../secret.txt''
   \<and> fst (download_file demo_lib demo_clock
          (demo_request (demo_token ''U001'' ''U001'' 1300)
             [(''file'', ''downloads/../../secret.txt'')] []) demo_world)
      = SendFile ''top secret''
   \<and> path_loc demo_world DATA_HOME = Some [''srv'', ''dataroot'']
   \<and> path_loc demo_world (os_path_join DATA_HOME [''downloads/../../secret.txt''])
      = Some [''srv'', ''secret.txt'']
   \<and> \<not> prefix [''srv'', ''dataroot''] [''srv'', ''secret.txt'']
   \<and> has_parent_segment ''../../../planted.txt''
   \<and> lookup [''srv'', ''planted.txt''] (root demo_world) = None
   \<and> lookup [''srv'', ''planted.txt'']
        (root (snd (upload_files demo_lib demo_clock
           (demo_request (demo_token ''U001'' ''U001'' 1300) []
              [(''f'', ''../../../planted.txt'', ''x'')]) demo_world)))
      = Some (File ''x'' 1000 True)"
  by code_simp

section \<open>The folder embedded in a token\<close>

lemma get_user_folder_Some:
  assumes "get_user_folder cfg login_user requested_folder = Some f" and "login_user \<noteq> []"
  shows "f \<noteq> [] \<and> f = (if truthy requested_folder then str_opt requested_folder else login_user)"
  using assms
  by (cases requested_folder)
     (auto simp: get_user_folder_def truthy_def str_opt_def split: if_splits)

lemma token_issued:
  assumes "fst (token cfg L clk req w) = Jsonify False msg (TokenIssued tok folder)"
  shows "\<exists>subject secret.
           map_of (form req) ''user'' = Some subject \<and> map_of (jwt_users cfg) subject = Some secret
         \<and> get_user_folder cfg subject (map_of (form req) ''folder'') = Some folder
         \<and> tok = jwt_encode \<lparr> claim_user_id = Some subject, claim_user_folder = Some folder,
                               claim_exp = Some (now clk + TOKEN_DURATION) \<rparr> JWT_KEY"
  using assms
  by (auto simp: token_def logged_def error_response_def missing_parameter_def Let_def
      split: option.splits prod.splits sum.splits if_splits)

lemma verify_issued:
  assumes "verify_token (jwt_encode \<lparr> claim_user_id = Some u, claim_user_folder = Some f,
                                     claim_exp = e \<rparr> k) t = Some r"
  shows "r = (u, Some f)"
  using assms
  by (auto simp: verify_token_def jwt_decode_def jwt_encode_def
      split: option.splits if_splits sum.splits jwt_error.splits)

lemma upload_files_folder:
  assumes "fst (upload_files L clk req w) = Jsonify False m (Uploaded fs uf)"
    and "form_token req = Some tok"
  shows "\<exists>user_id user_folder. verify_token tok (now clk) = Some (user_id, user_folder)
           \<and> uf = upload_folder_of user_folder user_id"
  using assms
  by (auto simp: upload_files_def logged_def error_response_def Let_def
      split: option.splits prod.splits sum.splits if_splits)

text \<open>
  Claim C10. Where no subject has the empty id (as in the configuration of the source),
  every token that \<open>token\<close> issues embeds a non-empty folder: the requested folder when
  one was requested and allowed, and the subject's id otherwise. So \<open>verify_token\<close> on
  such a token yields that folder whenever it succeeds, never an empty one, and
  \<open>upload_files\<close> takes the folder of the token: its fallback to the subject's id is not
  reached.
\<close>

theorem issued_folder_never_empty:
  assumes "map_of (jwt_users cfg) [] = None"
    and "fst (token cfg L clk req w) = Jsonify False msg (TokenIssued tok folder)"
  shows "folder \<noteq> []
       \<and> (\<exists>subject. map_of (form req) ''user'' = Some subject
            \<and> folder = (if truthy (map_of (form req) ''folder'')
                        then str_opt (map_of (form req) ''folder'') else subject))
       \<and> (\<forall>t r. verify_token tok t = Some r
            \<longrightarrow> snd r = Some folder \<and> truthy (snd r)
                \<and> upload_folder_of (snd r) (fst r) = folder)
       \<and> (\<forall>L' clk' req' w' m fs uf.
            form_token req' = Some tok
            \<and> fst (upload_files L' clk' req' w') = Jsonify False m (Uploaded fs uf)
            \<longrightarrow> uf = folder)"
proof -
  from token_issued [OF assms(2)] obtain subject secret where
    u: "map_of (form req) ''user'' = Some subject"
    and s: "map_of (jwt_users cfg) subject = Some secret"
    and g: "get_user_folder cfg subject (map_of (form req) ''folder'') = Some folder"
    and tk: "tok = jwt_encode \<lparr> claim_user_id = Some subject, claim_user_folder = Some folder,
                                claim_exp = Some (now clk + TOKEN_DURATION) \<rparr> JWT_KEY"
    by blast
  from s assms(1) have ne: "subject \<noteq> []" by auto
  from get_user_folder_Some [OF g ne] have
    f1: "folder \<noteq> []"
    and f2: "folder = (if truthy (map_of (form req) ''folder'')
                      then str_opt (map_of (form req) ''folder'') else subject)"
    by blast+
  have v: "\<And>t r. verify_token tok t = Some r \<Longrightarrow> r = (subject, Some folder)"
    unfolding tk by (rule verify_issued)
  have f3: "\<forall>t r. verify_token tok t = Some r
              \<longrightarrow> snd r = Some folder \<and> truthy (snd r)
                  \<and> upload_folder_of (snd r) (fst r) = folder"
  proof (intro allI impI)
    fix t r
    assume "verify_token tok t = Some r"
    then have "r = (subject, Some folder)" by (rule v)
    then show "snd r = Some folder \<and> truthy (snd r) \<and> upload_folder_of (snd r) (fst r) = folder"
      using f1 by (simp add: upload_folder_of_def truthy_def str_opt_def)
  qed
  have f4: "\<forall>L' clk' req' w' m fs uf.
            form_token req' = Some tok
            \<and> fst (upload_files L' clk' req' w') = Jsonify False m (Uploaded fs uf)
            \<longrightarrow> uf = folder"
  proof (intro allI impI)
    fix L' clk' req' w' m fs uf
    assume a: "form_token req' = Some tok
        \<and> fst (upload_files L' clk' req' w') = Jsonify False m (Uploaded fs uf)"
    from upload_files_folder [of L' clk' req' w' m fs uf tok] a obtain user_id user_folder
      where "verify_token tok (now clk') = Some (user_id, user_folder)"
        and "uf = upload_folder_of user_folder user_id"
      by blast
    then have "uf = upload_folder_of (snd (user_id, user_folder)) (fst (user_id, user_folder))"
      and "verify_token tok (now clk') = Some (user_id, user_folder)"
      by simp_all
    with f3 show "uf = folder" by metis
  qed
  have f5: "\<exists>subject. map_of (form req) ''user'' = Some subject
            \<and> folder = (if truthy (map_of (form req) ''folder'')
                        then str_opt (map_of (form req) ''folder'') else subject)"
    using u f2 by (intro exI [of _ subject] conjI)
  show ?thesis
    by (intro conjI) (rule f1, rule f5, rule f3, rule f4)
qed

theorem issued_folder_never_empty_witness:
  "''U001'' \<noteq> []
   \<and> upload_folder_of (Some ''U001'') ''U001'' = ''U001''
   \<and> fst (upload_files demo_lib demo_clock
        (demo_request (demo_token ''U001'' ''U001'' 1300) [] [(''f'', ''report.txt'', ''x'')])
        demo_world)
     = Jsonify False ''Files uploaded successfully.'' (Uploaded [''report.txt''] ''U001'')"
proof -
  let ?tok = "demo_token ''U001'' ''U001'' 1300"
  let ?req = "demo_request ?tok [] [(''f'', ''report.txt'', ''x'')]"
  have h1: "map_of (jwt_users default_config) [] = None"
    by (simp add: default_config_def)
  have v: "verify_token ?tok (now demo_clock) = Some (''U001'', Some ''U001'')"
    by (simp add: demo_verify)
  have up: "fst (upload_files demo_lib demo_clock ?req demo_world)
      = Jsonify False ''Files uploaded successfully.'' (Uploaded [''report.txt''] ''U001'')"
    by code_simp
  have tk: "form_token ?req = Some ?tok" by (simp add: demo_request_def)
  note inst = issued_folder_never_empty [OF h1 demo_issue]
  from inst have a: "''U001'' \<noteq> []" by (rule conjunct1)
  from inst have "\<forall>t r. verify_token (demo_token ''U001'' ''U001'' 1300) t = Some r
      \<longrightarrow> snd r = Some ''U001'' \<and> truthy (snd r) \<and> upload_folder_of (snd r) (fst r) = ''U001''"
    by (elim conjE)
  from this [rule_format, OF v]
  have b: "upload_folder_of (Some ''U001'') ''U001'' = ''U001''" by simp
  from a b up show ?thesis by simp
qed

section \<open>The tree under a write\<close>

lemma lookup_append:
  "lookup (l1 @ l2) n = (case lookup l1 n of None \<Rightarrow> None | Some d \<Rightarrow> lookup l2 d)"
  by (induction l1 arbitrary: n) (auto split: node.splits option.splits)

lemma lookup_below_file: "\<not> is_dir (Some n) \<Longrightarrow> l \<noteq> [] \<Longrightarrow> lookup l n = None"
  by (cases l; cases n) auto

lemma is_dir_lookup_file [simp]: "\<not> is_dir (lookup l (File b m r))"
  by (cases l) auto

lemma lookup_file_Cons [simp]: "lookup (c # cs) (File b m r) = None"
  by simp

lemma is_dir_put_file:
  "\<not> is_dir (lookup l n) \<Longrightarrow> is_dir (lookup l' (put l (File b m r) n)) = is_dir (lookup l' n)"
proof (induction l arbitrary: n l')
  case Nil
  then show ?case by (cases l'; cases n) auto
next
  case (Cons c cs)
  show ?case
  proof (cases n)
    case (File b0 m0 r0)
    then show ?thesis by simp
  next
    case (Dir es)
    show ?thesis
    proof (cases "map_of es c")
      case None
      then show ?thesis using Dir
        by (cases l') (auto simp: update_conv' split: list.splits)
    next
      case (Some d)
      with Cons.prems Dir have nd: "\<not> is_dir (lookup cs d)" by simp
      show ?thesis
      proof (cases l')
        case Nil
        then show ?thesis using Dir Some by simp
      next
        case (Cons c' cs')
        then show ?thesis using Dir Some Cons.IH [OF nd, of cs']
          by (auto simp: update_conv')
      qed
    qed
  qed
qed

lemma lookup_put_file_other:
  "\<not> is_dir (lookup l n) \<Longrightarrow> \<not> prefix l' l \<Longrightarrow> lookup l' (put l (File b m r) n) = lookup l' n"
proof (induction l arbitrary: n l')
  case Nil
  then show ?case by (cases l'; cases n) auto
next
  case (Cons c cs)
  show ?case
  proof (cases n)
    case (File b0 m0 r0)
    then show ?thesis by simp
  next
    case (Dir es)
    from Cons.prems(2) obtain c' cs' where l': "l' = c' # cs'" by (cases l') auto
    show ?thesis
    proof (cases "map_of es c")
      case None
      then show ?thesis using Dir l' Cons.prems(2)
        by (auto simp: update_conv' split: list.splits) (cases cs'; simp)+
    next
      case (Some d)
      with Cons.prems Dir have nd: "\<not> is_dir (lookup cs d)" by simp
      show ?thesis
      proof (cases "c' = c")
        case True
        with Cons.prems(2) l' have "\<not> prefix cs' cs" by simp
        from Cons.IH [OF nd this] show ?thesis using Dir Some l' True
          by (simp add: update_conv')
      next
        case False
        then show ?thesis using Dir Some l' by (simp add: update_conv')
      qed
    qed
  qed
qed

lemma lookup_put_here:
  "l = [] \<or> is_dir (lookup (butlast l) n) \<Longrightarrow> lookup l (put l new n) = Some new"
proof (induction l arbitrary: n)
  case Nil
  then show ?case by simp
next
  case (Cons c cs)
  then have d: "is_dir (lookup (butlast (c # cs)) n)" by simp
  show ?case
  proof (cases cs)
    case Nil
    with d obtain es where "n = Dir es" by (cases n) auto
    then show ?thesis using Nil by (auto simp: update_conv' split: option.splits)
  next
    case (Cons c2 cs2)
    with d have d2: "is_dir (lookup (c # butlast cs) n)" by simp
    then obtain es where n: "n = Dir es" by (cases n) auto
    with d2 obtain x where x: "map_of es c = Some x" and dx: "is_dir (lookup (butlast cs) x)"
      by (auto split: option.splits)
    from Cons.IH [of x] dx Cons have "lookup cs (put cs new x) = Some new" by simp
    then show ?thesis using n x by (simp add: update_conv')
  qed
qed

lemma resolve_cong:
  "(\<And>l. is_dir (lookup l r') = is_dir (lookup l r)) \<Longrightarrow> resolve r' cur cs = resolve r cur cs"
  by (induction cs arbitrary: cur) auto

lemma resolve_append:
  "resolve r cur (cs @ ds) = (case resolve r cur cs of None \<Rightarrow> None | Some c \<Rightarrow> resolve r c ds)"
  by (induction cs arbitrary: cur) auto

lemma resolve_name:
  "valid_name n \<Longrightarrow> resolve r cur [n] = (if is_dir (lookup cur r) then Some (cur @ [n]) else None)"
  by (auto simp: valid_name_def)

lemma splitp_append_sep: "splitp (a @ sep # b) = splitp a @ splitp b"
  by (induction a) (auto split: list.splits simp: splitp_nonempty)

lemma splitp_no_sep: "sep \<notin> set n \<Longrightarrow> splitp n = [n]"
  by (induction n) auto

lemma join2_name: "valid_name n \<Longrightarrow> a \<noteq> [] \<Longrightarrow> last a \<noteq> sep \<Longrightarrow> join2 a n = a @ sep # n"
  by (cases n) (auto simp: join2_def valid_name_def)

lemma path_loc_join:
  assumes "path_loc w rt = Some l" and "rt \<noteq> []" and "last rt \<noteq> sep" and "valid_name n"
  shows "path_loc w (join2 rt n) = (if is_dir (lookup l (root w)) then Some (l @ [n]) else None)"
proof -
  have j: "join2 rt n = rt @ sep # n" using assms by (simp add: join2_name)
  have p: "prefix [sep] (rt @ sep # n) = prefix [sep] rt" using assms(2) by (cases rt) auto
  have s: "splitp (rt @ sep # n) = splitp rt @ [n]"
    using assms(4) by (simp add: splitp_append_sep splitp_no_sep valid_name_def)
  from assms(1,2) have r: "resolve (root w) (if prefix [sep] rt then [] else cwd w) (splitp rt) = Some l"
    by (simp add: path_loc_def)
  have n: "resolve (root w) l [n] = (if is_dir (lookup l (root w)) then Some (l @ [n]) else None)"
    using assms(4) by (rule resolve_name)
  show ?thesis
    unfolding j path_loc_def p s resolve_append r using n by simp
qed

section \<open>What a log entry changes\<close>

lemma same_but_refl: "same_but ll w w"
  by (simp add: same_but_def)

lemma same_but_root: "root w' = root w \<Longrightarrow> cwd w' = cwd w \<Longrightarrow> same_but ll w w'"
  by (simp add: same_but_def)

lemma same_but_trans: "same_but ll w w1 \<Longrightarrow> same_but ll w1 w2 \<Longrightarrow> same_but ll w w2"
  by (simp add: same_but_def)

lemma same_but_path_loc:
  assumes "same_but ll w w'"
  shows "path_loc w' p = path_loc w p"
proof -
  have "resolve (root w') c cs = resolve (root w) c cs" for c cs
    by (rule resolve_cong) (use assms in \<open>simp add: same_but_def\<close>)
  then show ?thesis using assms by (simp add: path_loc_def same_but_def)
qed

lemma same_but_stat:
  assumes "same_but ll w w'" and "path_loc w p = Some l" and "\<And>x. ll = Some x \<Longrightarrow> \<not> prefix l x"
  shows "stat_node w' p = stat_node w p"
proof -
  have "path_loc w' p = Some l" using assms(1,2) by (simp add: same_but_path_loc)
  moreover have "lookup l (root w') = lookup l (root w)"
    using assms(1,3) unfolding same_but_def by blast
  ultimately show ?thesis using assms(2) by (simp add: stat_node_def)
qed

lemma same_but_traced [simp]: "same_but ll w (traced e w') = same_but ll w w'"
  by (simp add: same_but_def)

lemma same_but_put:
  assumes "\<not> is_dir (lookup l (root w))"
  shows "same_but (Some l) w (w\<lparr>root := put l (File b t r) (root w)\<rparr>)"
  using assms by (simp add: same_but_def is_dir_put_file lookup_put_file_other)

lemma open_write_same_but: "same_but (path_loc w p) w (snd (open_write p b t w))"
proof (cases "path_loc w p")
  case None
  then show ?thesis by (simp add: open_write_def same_but_refl)
next
  case (Some l)
  show ?thesis
  proof (cases "lookup l (root w)")
    case None
    then have "\<not> is_dir (lookup l (root w))" by simp
    from same_but_put [OF this] show ?thesis using Some None
      by (simp add: open_write_def same_but_refl)
  next
    case (Some n)
    note n = this
    show ?thesis
    proof (cases n)
      case (File b0 m0 r0)
      then have "\<not> is_dir (lookup l (root w))" using n by simp
      from same_but_put [OF this] show ?thesis using \<open>path_loc w p = Some l\<close> n File
        by (simp add: open_write_def)
    next
      case (Dir es)
      then show ?thesis using \<open>path_loc w p = Some l\<close> n
        by (simp add: open_write_def same_but_refl)
    qed
  qed
qed

lemma os_path_exists_snd [simp]: "snd (os_path_exists p w) = traced (IoStat p) w"
  by (simp add: os_path_exists_def)

lemma os_path_exists_fst [simp]: "fst (os_path_exists p w) = (stat_node w p \<noteq> None)"
  by (simp add: os_path_exists_def)

lemma open_read_snd [simp]: "snd (open_read p w) = traced (IoOpenRead p) w"
  by (simp add: open_read_def split: option.splits node.splits)

lemma read_logs_snd:
  "snd (read_logs L clk w) = traced (IoStat (log_file clk)) w
   \<or> snd (read_logs L clk w) = traced (IoOpenRead (log_file clk)) (traced (IoStat (log_file clk)) w)"
proof (cases "stat_node w (log_file clk) = None")
  case True
  then show ?thesis by (simp add: read_logs_def os_path_exists_def)
next
  case False
  obtain r w2 where o: "open_read (log_file clk) (traced (IoStat (log_file clk)) w) = (r, w2)"
    by (cases "open_read (log_file clk) (traced (IoStat (log_file clk)) w)")
  then have w2: "w2 = traced (IoOpenRead (log_file clk)) (traced (IoStat (log_file clk)) w)"
    using open_read_snd [of "log_file clk" "traced (IoStat (log_file clk)) w"] by simp
  have "snd (read_logs L clk w) = w2"
    using False o
    by (cases r) (auto simp: read_logs_def os_path_exists_def split: sum.splits)
  with w2 show ?thesis by simp
qed

lemma read_logs_world:
  "root (snd (read_logs L clk w)) = root w \<and> cwd (snd (read_logs L clk w)) = cwd w"
  using read_logs_snd [of L clk w] by auto

lemma log_same_but:
  "same_but (path_loc w (log_file clk)) w (snd (log_sync_operation L clk u op d w))"
proof -
  obtain res w1 where r: "read_logs L clk w = (res, w1)" by (cases "read_logs L clk w")
  with read_logs_world [of L clk w] have w1: "root w1 = root w" "cwd w1 = cwd w" by simp_all
  then have pl: "path_loc w1 (log_file clk) = path_loc w (log_file clk)"
    by (rule path_loc_cong)
  have sb: "same_but (path_loc w (log_file clk)) w w1" using w1 by (simp add: same_but_root)
  show ?thesis
  proof (cases res)
    case (Inl e)
    then show ?thesis using r sb by (simp add: log_sync_operation_def)
  next
    case (Inr v)
    show ?thesis
    proof (cases v)
      case (JList logs)
      from open_write_same_but [of w1 "log_file clk"] pl
      have "same_but (path_loc w (log_file clk)) w1
              (snd (open_write (log_file clk)
                     (json_dump L (JList (logs @ [log_entry clk u op d]))) (now clk) w1))"
        by simp
      from same_but_trans [OF sb this] show ?thesis using r Inr JList
        by (simp add: log_sync_operation_def)
    qed (use r Inr sb in \<open>simp_all add: log_sync_operation_def\<close>)
  qed
qed

section \<open>A successful log entry\<close>

lemma lookup_ancestor_dir:
  assumes "lookup l n = Some x" and "prefix l' l" and "l' \<noteq> l"
  shows "is_dir (lookup l' n)"
proof -
  from assms(2,3) obtain rest where l: "l = l' @ rest" and r: "rest \<noteq> []"
    by (auto simp: prefix_def)
  from assms(1) l obtain d where d: "lookup l' n = Some d" and x: "lookup rest d = Some x"
    by (auto simp: lookup_append split: option.splits)
  from x r have "is_dir (Some d)" using lookup_below_file [of d rest] by auto
  with d show ?thesis by simp
qed

lemma lookup_parent_dir:
  assumes "lookup l n = Some x"
  shows "l = [] \<or> is_dir (lookup (butlast l) n)"
proof (cases l rule: rev_cases)
  case Nil
  then show ?thesis by simp
next
  case (snoc ys y)
  have "is_dir (lookup ys n)"
    by (rule lookup_ancestor_dir [OF assms]) (simp_all add: snoc)
  then show ?thesis using snoc by simp
qed




lemma log_ready_loc:
  "log_ready L clk w \<Longrightarrow> \<exists>ll. path_loc w (log_file clk) = Some ll"
  by (auto simp: log_ready_def split: option.splits)

lemma log_ready_success:
  assumes "log_ready L clk w" and "path_loc w (log_file clk) = Some ll"
  shows "fst (log_sync_operation L clk u op d w) = Inr ()
       \<and> lookup ll (root (snd (log_sync_operation L clk u op d w)))
           = Some (File (json_dump L (JList (current_logs L clk w @ [log_entry clk u op d])))
                    (now clk) True)"
proof (cases "lookup ll (root w)")
  case None
  with assms have ne: "ll \<noteq> []" and pd: "is_dir (lookup (butlast ll) (root w))"
    by (auto simp: log_ready_def)
  have st: "stat_node w (log_file clk) = None" using assms(2) None by (simp add: stat_node_def)
  then have rl: "read_logs L clk w = (Inr (JList []), traced (IoStat (log_file clk)) w)"
    by (simp add: read_logs_def os_path_exists_def)
  have cl: "current_logs L clk w = []" using st by (simp add: current_logs_def)
  show ?thesis
    using rl cl assms(2) None ne pd
    by (simp add: log_sync_operation_def open_write_def lookup_put_here)
next
  case (Some x)
  with assms obtain b m where x: "x = File b m True"
    and j: "(json_load L b = Inl JSONDecodeError) \<or> (\<exists>logs. json_load L b = Inr (JList logs))"
    by (cases x) (auto simp: log_ready_def is_json_list_def split: sum.splits json.splits)
  have st: "stat_node w (log_file clk) = Some (File b m True)"
    using assms(2) Some x by (simp add: stat_node_def)
  have pd: "ll = [] \<or> is_dir (lookup (butlast ll) (root w))"
    using Some by (rule lookup_parent_dir)
  let ?w2 = "traced (IoOpenRead (log_file clk)) (traced (IoStat (log_file clk)) w)"
  have rl: "read_logs L clk w = (Inr (JList (current_logs L clk w)), ?w2)"
    using st j by (auto simp: read_logs_def os_path_exists_def open_read_def current_logs_def)
  show ?thesis
    using rl assms(2) Some x pd
    by (simp add: log_sync_operation_def open_write_def lookup_put_here)
qed



section \<open>Download with fallback\<close>








lemma log_ready_cong:
  assumes "root w' = root w" and "cwd w' = cwd w"
  shows "log_ready L clk w' = log_ready L clk w"
proof -
  have "path_loc w' (log_file clk) = path_loc w (log_file clk)"
    using assms by (rule path_loc_cong)
  then show ?thesis
    unfolding log_ready_def assms(1) by simp
qed



text \<open>
  The condition on the root path is needed. With the same tree and the module of the
  server in \<^verbatim>\<open>/opt\<close>, the per-folder file passes the test of existence, made from the
  working directory, and \<^verbatim>\<open>send_file\<close> then looks for it under the root path and raises.
\<close>

lemma send_file_from_other_root_path:
  "fst (download_file_auto (demo_lib\<lparr>root_path := ''/opt''\<rparr>) demo_clock
          (demo_request (demo_token ''U001'' ''U001'' 1300) [(''file'', ''a.txt'')] [])
          demo_world)
   = Uncaught (FileNotFoundError ''/opt/./dataroot/downloads/users/U001/a.txt'')"
  by code_simp

section \<open>Failures of authentication\<close>

lemma verify_token_failure: "jwt_decode tok JWT_KEY t = Inl e \<Longrightarrow> verify_token tok t = None"
  by (cases e) (simp_all add: verify_token_def)

lemma dispatch_unverified:
  assumes "verify_token tok (now clk) = None"
  shows "dispatch cfg L clk r (req\<lparr>form_token := Some tok\<rparr>) w =
     (if r = Download_auto \<and> map_of (form req) ''file'' = None then missing_parameter L ''file''
      else if r = Download \<and> map_of (form req) ''file'' = None then missing_parameter L ''file''
      else if r = Sync_upload \<and> map_of (form req) ''target_path'' = None
        then missing_parameter L ''target_path''
      else if r = Sync_delete \<and> map_of (form req) ''file'' = None then missing_parameter L ''file''
      else if r = Create_folder \<and> map_of (form req) ''folder'' = None
        then missing_parameter L ''folder''
      else error_response ''Invalid or expired token.'', w)"
  using assms
  by (cases r)
     (simp_all add: list_downloads_def download_file_auto_def download_file_def
        upload_files_def list_uploads_def sync_upload_def sync_delete_def file_metadata_def
        create_folder_def split: option.splits)

lemma logged_ready:
  assumes "log_ready L clk w"
  shows "\<exists>w1. logged L clk u op d k w = k w1"
proof -
  from log_ready_loc [OF assms] obtain ll where "path_loc w (log_file clk) = Some ll" by blast
  from log_ready_success [OF assms this, of u op d]
  obtain w1 where "log_sync_operation L clk u op d w = (Inr (), w1)"
    by (cases "log_sync_operation L clk u op d w") auto
  then show ?thesis by (auto simp: logged_def)
qed

text \<open>
  Claim C3 says that requests failing authentication for different reasons (bad credential,
  expired, malformed or wrongly signed token) get one and the same answer, "invalid or
  expired". On the sample installation a wrong secret at \<open>token\<close> is answered
  "Invalid credentials." and an expired token at \<open>download_file\<close> is answered
  "Invalid or expired token.": two different answers.
\<close>

theorem auth_failure_outcomes_differ:
  "fst (token default_config demo_lib demo_clock
          \<lparr> form_token = None, form = [(''user'', ''U001''), (''password'', ''guess'')],
            files = [] \<rparr> demo_world)
     = error_response ''Invalid credentials.''
   \<and> fst (download_file demo_lib demo_clock
          (demo_request (demo_token ''U001'' ''U001'' 900) [(''file'', ''downloads/a.txt'')] [])
          demo_world)
     = error_response ''Invalid or expired token.''
   \<and> error_response ''Invalid credentials.'' \<noteq> error_response ''Invalid or expired token.''"
  by code_simp

text \<open>
  Claim C3 as amended. Two requests to the same token-protected operation that differ in
  the token only, both tokens failing verification for whichever reasons (expired,
  malformed, wrong signature), get the same answer, and the world is left as it was: the
  answer is "Invalid or expired token.", or the notice of a missing form field where the
  operation reads that field before the token. A bad credential at \<open>token\<close> is answered
  "Invalid credentials." (the day's log being writable), whether the subject is unknown or
  the secret is wrong.
\<close>

theorem token_failures_indistinguishable:
  "(jwt_decode tok1 JWT_KEY (now clk) = Inl e1 \<and> jwt_decode tok2 JWT_KEY (now clk) = Inl e2
      \<longrightarrow> dispatch cfg L clk r (req\<lparr>form_token := Some tok1\<rparr>) w
            = dispatch cfg L clk r (req\<lparr>form_token := Some tok2\<rparr>) w
          \<and> snd (dispatch cfg L clk r (req\<lparr>form_token := Some tok1\<rparr>) w) = w
          \<and> (fst (dispatch cfg L clk r (req\<lparr>form_token := Some tok1\<rparr>) w)
                = error_response ''Invalid or expired token.''
              \<or> (\<exists>k. map_of (form req) k = None
                    \<and> fst (dispatch cfg L clk r (req\<lparr>form_token := Some tok1\<rparr>) w)
                        = missing_parameter L k)))
   \<and> (map_of (form req) ''user'' = Some subject \<and> map_of (form req) ''password'' = Some secret
        \<and> map_of (jwt_users cfg) subject \<noteq> Some secret \<and> log_ready L clk w
      \<longrightarrow> fst (token cfg L clk req w) = error_response ''Invalid credentials.'')"
proof (intro conjI impI)
  assume a: "jwt_decode tok1 JWT_KEY (now clk) = Inl e1 \<and> jwt_decode tok2 JWT_KEY (now clk) = Inl e2"
  then have v1: "verify_token tok1 (now clk) = None" and v2: "verify_token tok2 (now clk) = None"
    by (auto intro: verify_token_failure)
  show "dispatch cfg L clk r (req\<lparr>form_token := Some tok1\<rparr>) w
            = dispatch cfg L clk r (req\<lparr>form_token := Some tok2\<rparr>) w"
    unfolding dispatch_unverified [OF v1] dispatch_unverified [OF v2] ..
  show "snd (dispatch cfg L clk r (req\<lparr>form_token := Some tok1\<rparr>) w) = w"
    unfolding dispatch_unverified [OF v1] by simp
  show "fst (dispatch cfg L clk r (req\<lparr>form_token := Some tok1\<rparr>) w)
                = error_response ''Invalid or expired token.''
              \<or> (\<exists>k. map_of (form req) k = None
                    \<and> fst (dispatch cfg L clk r (req\<lparr>form_token := Some tok1\<rparr>) w)
                        = missing_parameter L k)"
    unfolding dispatch_unverified [OF v1] by auto
next
  assume a: "map_of (form req) ''user'' = Some subject \<and> map_of (form req) ''password'' = Some secret
        \<and> map_of (jwt_users cfg) subject \<noteq> Some secret \<and> log_ready L clk w"
  then have "token cfg L clk req w
      = logged L clk subject ''AUTH_FAILED'' ''Invalid credentials''
          (\<lambda>w1. (error_response ''Invalid credentials.'', w1)) w"
    by (simp add: token_def)
  with logged_ready [of L clk w subject "''AUTH_FAILED''" "''Invalid credentials''"
         "\<lambda>w1. (error_response ''Invalid credentials.'', w1)"] a
  show "fst (token cfg L clk req w) = error_response ''Invalid credentials.''"
    by auto
qed

theorem token_failures_indistinguishable_witness:
  "dispatch default_config demo_lib demo_clock Download
      (demo_request (demo_token ''U001'' ''U001'' 900)
         [(''file'', ''downloads/a.txt''), (''user'', ''nobody''), (''password'', ''guess'')] [])
      demo_world
   = dispatch default_config demo_lib demo_clock Download
      (demo_request (Garbage ''not a token'')
         [(''file'', ''downloads/a.txt''), (''user'', ''nobody''), (''password'', ''guess'')] [])
      demo_world
   \<and> dispatch default_config demo_lib demo_clock Download
      (demo_request (Garbage ''not a token'')
         [(''file'', ''downloads/a.txt''), (''user'', ''nobody''), (''password'', ''guess'')] [])
      demo_world = (error_response ''Invalid or expired token.'', demo_world)
   \<and> fst (token default_config demo_lib demo_clock
          (demo_request (Garbage ''not a token'')
             [(''file'', ''downloads/a.txt''), (''user'', ''nobody''), (''password'', ''guess'')]
             []) demo_world)
     = error_response ''Invalid credentials.''"
proof -
  let ?t1 = "demo_token ''U001'' ''U001'' 900" and ?t2 = "Garbage ''not a token''"
  let ?kvs = "[(''file'', ''downloads/a.txt''), (''user'', ''nobody''), (''password'', ''guess'')]"
  let ?req = "demo_request ?t2 ?kvs []"
  have d1: "jwt_decode ?t1 JWT_KEY (now demo_clock) = Inl ExpiredSignatureError"
    by (simp add: jwt_decode_def demo_token_def jwt_encode_def demo_clock_def)
  have d2: "jwt_decode ?t2 JWT_KEY (now demo_clock) = Inl DecodeError"
    by (simp add: jwt_decode_def)
  have lg: "log_ready demo_lib demo_clock demo_world" by code_simp
  have bad: "map_of (form ?req) ''user'' = Some ''nobody''
      \<and> map_of (form ?req) ''password'' = Some ''guess''
      \<and> map_of (jwt_users default_config) ''nobody'' \<noteq> Some ''guess''"
    by (simp add: demo_request_def default_config_def)
  have u1: "?req\<lparr>form_token := Some ?t1\<rparr> = demo_request ?t1 ?kvs []"
    and u2: "?req\<lparr>form_token := Some ?t2\<rparr> = ?req"
    by (simp_all add: demo_request_def)
  have msg: "fst (dispatch default_config demo_lib demo_clock Download ?req demo_world)
      = error_response ''Invalid or expired token.''"
    by code_simp
  note inst = token_failures_indistinguishable
      [of ?t1 demo_clock ExpiredSignatureError ?t2 DecodeError default_config demo_lib Download
          ?req demo_world "''nobody''" "''guess''", unfolded u1 u2]
  from inst d1 d2 have
    a: "dispatch default_config demo_lib demo_clock Download (demo_request ?t1 ?kvs []) demo_world
        = dispatch default_config demo_lib demo_clock Download ?req demo_world"
    by blast
  from inst d1 d2 have
    "snd (dispatch default_config demo_lib demo_clock Download (demo_request ?t1 ?kvs [])
            demo_world) = demo_world"
    by blast
  then have
    b: "snd (dispatch default_config demo_lib demo_clock Download ?req demo_world) = demo_world"
    unfolding a .
  from inst bad lg have
    c: "fst (token default_config demo_lib demo_clock ?req demo_world)
        = error_response ''Invalid credentials.''"
    by blast
  from msg b have "dispatch default_config demo_lib demo_clock Download ?req demo_world
      = (error_response ''Invalid or expired token.'', demo_world)"
    by (simp add: prod_eq_iff)
  with a c show ?thesis by simp
qed

section \<open>Where the walk and the log are\<close>

lemma downloads_path_eq: "downloads_path = ''./dataroot/downloads''"
  by (simp add: downloads_path_def os_path_join_def join2_def DATA_HOME_def sep_def)

lemma downloads_loc:
  "path_loc w downloads_path = Some D \<Longrightarrow> D = cwd w @ [''dataroot'', ''downloads'']"
  by (simp add: downloads_path_eq path_loc_def sep_def split: if_splits)

lemma log_file_eq: "log_file clk = ''./dataroot/logs/sync_'' @ today_isoformat clk @ ''.json''"
  by (simp add: log_file_def os_path_join_def join2_def DATA_HOME_def sep_def)

lemma log_loc:
  assumes "sep \<notin> set (today_isoformat clk)" and "path_loc w (log_file clk) = Some ll"
  shows "ll = cwd w @ [''dataroot'', ''logs'', ''sync_'' @ today_isoformat clk @ ''.json'']"
proof -
  have "sep \<notin> set (today_isoformat clk @ ''.json'')" using assms(1) by (simp add: sep_def)
  then have s: "splitp (today_isoformat clk @ ''.json'') = [today_isoformat clk @ ''.json'']"
    by (rule splitp_no_sep)
  show ?thesis
    using assms(2) by (simp add: log_file_eq path_loc_def sep_def s split: if_splits)
qed

lemma log_not_under_downloads:
  assumes "sep \<notin> set (today_isoformat clk)" and "path_loc w (log_file clk) = Some ll"
    and "path_loc w downloads_path = Some D"
  shows "\<not> prefix D ll"
  using log_loc [OF assms(1,2)] downloads_loc [OF assms(3)] by simp

lemma walk_paths_under:
  assumes "path_loc w tp = Some D" and "lookup D (root w) = Some nd" and "wf_node nd"
    and "tp \<noteq> []" and "last tp \<noteq> sep"
    and "(rt, ds, fs) \<in> set (walk tp nd)" and "f \<in> set fs"
  shows "\<exists>l. path_loc w (os_path_join rt [f]) = Some l \<and> prefix D l"
  using assms
proof (induction tp nd arbitrary: D rule: walk.induct)
  case (1 tp b m r)
  then show ?case by simp
next
  case (2 tp es)
  have dD: "is_dir (lookup D (root w))" using "2.prems"(2) by simp
  from "2.prems"(6) consider
      (head) "rt = tp" "fs = map fst (filter (\<lambda>(n, d). \<not> is_dir (Some d)) es)"
    | (sub) n d where "(n, d) \<in> set es" "(rt, ds, fs) \<in> set (walk (join2 tp n) d)"
    by auto
  then show ?case
  proof cases
    case head
    with "2.prems"(7) obtain d where "(f, d) \<in> set es" by auto
    with "2.prems"(3) have "valid_name f" by auto
    from path_loc_join [OF "2.prems"(1,4,5) this] dD head(1)
    show ?thesis by (simp add: os_path_join_def)
  next
    case sub
    from sub(1) "2.prems"(3) have vn: "valid_name n" and wd: "wf_node d"
      and dist: "distinct (map fst es)"
      by auto
    from path_loc_join [OF "2.prems"(1,4,5) vn] dD
    have pl: "path_loc w (join2 tp n) = Some (D @ [n])" by simp
    have "map_of es n = Some d" using dist sub(1) by simp
    then have lk: "lookup (D @ [n]) (root w) = Some d"
      using "2.prems"(2) by (simp add: lookup_append)
    have j: "join2 tp n = tp @ sep # n" using vn "2.prems"(4,5) by (rule join2_name)
    have "n \<noteq> [] \<and> last n \<in> set n" using vn by (simp add: valid_name_def)
    then have ne: "join2 tp n \<noteq> []" and la: "last (join2 tp n) \<noteq> sep"
      using vn by (auto simp: j valid_name_def)
    from "2.IH" [OF sub(1) refl pl lk wd ne la sub(2) "2.prems"(7)]
    obtain l where "path_loc w (os_path_join rt [f]) = Some l" and "prefix (D @ [n]) l"
      by blast
    then show ?thesis by (auto dest: append_prefixD)
  qed
qed

section \<open>The metadata loop\<close>

lemma read_record_world:
  "root (snd (read_record L p w)) = root w \<and> cwd (snd (read_record L p w)) = cwd w"
  by (auto simp: read_record_def os_stat_def open_read_def split: option.splits node.splits)

lemma read_record_fst:
  "fst (read_record L p w)
   = (case file_record_of L w p of None \<Rightarrow> Inl (file_failure w p) | Some r \<Rightarrow> Inr r)"
  by (auto simp: read_record_def os_stat_def open_read_def file_record_of_def file_failure_def
        st_size_def st_mtime_def
      split: option.splits node.splits)

lemma abspath_cong: "cwd w' = cwd w \<Longrightarrow> abspath w' p = abspath w p"
  by (simp add: abspath_def)

lemma rel_path_of_cong: "cwd w' = cwd w \<Longrightarrow> rel_path_of w' p = rel_path_of w p"
  by (simp add: rel_path_of_def os_path_relpath_def abspath_def)

lemma same_but_stat_safe:
  assumes "same_but LL w0 w" and "safe_path LL w0 p"
  shows "stat_node w p = stat_node w0 p"
proof (cases "path_loc w0 p")
  case None
  then have "path_loc w p = None" using assms(1) by (simp add: same_but_path_loc)
  with None show ?thesis by (simp add: stat_node_def)
next
  case (Some l)
  show ?thesis
    by (rule same_but_stat [OF assms(1) Some]) (use assms(2) Some in \<open>simp add: safe_path_def\<close>)
qed

lemma same_but_cwd: "same_but LL w0 w \<Longrightarrow> cwd w = cwd w0"
  by (simp add: same_but_def)

lemma same_but_record:
  assumes "same_but LL w0 w" and "safe_path LL w0 p"
  shows "file_record_of L w p = file_record_of L w0 p" and "file_failure w p = file_failure w0 p"
    and "rel_path_of w p = rel_path_of w0 p"
  using same_but_stat_safe [OF assms] rel_path_of_cong [OF same_but_cwd [OF assms(1)]]
  by (simp_all add: file_record_of_def file_failure_def)

lemma same_but_step:
  assumes "same_but LL w0 w" and "root w' = root w" and "cwd w' = cwd w"
  shows "same_but LL w0 w'"
  using assms by (simp add: same_but_def)

lemma same_but_log:
  assumes "same_but LL w0 w" and "LL = path_loc w0 (log_file clk)"
  shows "same_but LL w0 (snd (log_sync_operation L clk u op d w))"
proof -
  have "path_loc w (log_file clk) = LL" using assms by (simp add: same_but_path_loc)
  with log_same_but [of w clk L u op d]
  have "same_but LL w (snd (log_sync_operation L clk u op d w))" by simp
  with assms(1) show ?thesis by (rule same_but_trans)
qed

text \<open>One file of the walk, whatever the log does.\<close>

lemma metadata_file_step:
  assumes sb: "same_but LL w0 w" and LL: "LL = path_loc w0 (log_file clk)"
    and safe: "safe_path LL w0 (os_path_join rt [f])"
    and run: "metadata_file L clk uid rt f md w = (res, w')"
  shows "same_but LL w0 w'"
    and "res = Inr md' \<Longrightarrow> md' = collect L w0 [os_path_join rt [f]] md"
proof -
  let ?p = "os_path_join rt [f]"
  obtain rs w1 where rr: "read_record L ?p w = (rs, w1)" by (cases "read_record L ?p w")
  with read_record_world [of L ?p w] have w1: "root w1 = root w" "cwd w1 = cwd w" by simp_all
  have sb1: "same_but LL w0 w1" using sb w1 by (rule same_but_step)
  have fr: "file_record_of L w ?p = file_record_of L w0 ?p"
    and ff: "file_failure w ?p = file_failure w0 ?p"
    and rel: "rel_path_of w ?p = rel_path_of w0 ?p"
    using same_but_record [OF sb safe] by simp_all
  have rs: "rs = (case file_record_of L w0 ?p of None \<Rightarrow> Inl (file_failure w0 ?p)
                    | Some r \<Rightarrow> Inr r)"
    using read_record_fst [of L ?p w] unfolding rr fr ff by simp
  have both: "same_but LL w0 w' \<and> (res = Inr md' \<longrightarrow> md' = collect L w0 [?p] md)"
  proof (cases "file_record_of L w0 ?p")
    case (Some r)
    then have "rs = Inr r" using rs by simp
    with run have "res = Inr (AList.update (rel_path_of w0 ?p) r md)" and "w' = w1"
      unfolding metadata_file_def Let_def rr rel by simp_all
    with Some sb1 show ?thesis by auto
  next
    case None
    let ?d = "metadata_error L (rel_path_of w0 ?p) (file_failure w0 ?p)"
    obtain lr w2 where lg: "log_sync_operation L clk uid ''METADATA_ERROR'' ?d w1 = (lr, w2)"
      by (cases "log_sync_operation L clk uid ''METADATA_ERROR'' ?d w1")
    have "same_but LL w0 (snd (log_sync_operation L clk uid ''METADATA_ERROR'' ?d w1))"
      using sb1 LL by (rule same_but_log)
    then have sb2: "same_but LL w0 w2" unfolding lg by simp
    from None have "rs = Inl (file_failure w0 ?p)" using rs by simp
    with run
    have "(res, w') = (case lr of Inl e' \<Rightarrow> (Inl e', w2) | Inr u \<Rightarrow> (Inr md, w2))"
      unfolding metadata_file_def Let_def rr rel by (simp add: lg)
    then have "w' = w2" and "res = Inr md' \<longrightarrow> md' = md"
      by (cases lr; simp)+
    with None sb2 show ?thesis by simp
  qed
  from both show "same_but LL w0 w'" by simp
  from both show "res = Inr md' \<Longrightarrow> md' = collect L w0 [os_path_join rt [f]] md" by simp
qed

lemma collect_append: "collect L w (xs @ ys) md = collect L w ys (collect L w xs md)"
  by (induction xs arbitrary: md) auto

lemma metadata_files_cond:
  assumes "same_but LL w0 w" and "LL = path_loc w0 (log_file clk)"
    and "\<forall>f \<in> set fs. safe_path LL w0 (os_path_join rt [f])"
    and "metadata_files L clk uid rt fs md w = (res, w')"
  shows "same_but LL w0 w'
       \<and> (\<forall>md'. res = Inr md' \<longrightarrow> md' = collect L w0 (map (\<lambda>f. os_path_join rt [f]) fs) md)"
  using assms
proof (induction fs arbitrary: md w)
  case Nil
  then show ?case by auto
next
  case (Cons f fs)
  obtain r1 w1 where st: "metadata_file L clk uid rt f md w = (r1, w1)"
    by (cases "metadata_file L clk uid rt f md w")
  from Cons.prems(3) have sf: "safe_path LL w0 (os_path_join rt [f])"
    and sr: "\<forall>f \<in> set fs. safe_path LL w0 (os_path_join rt [f])"
    by simp_all
  note step = metadata_file_step [OF Cons.prems(1,2) sf st]
  show ?case
  proof (cases r1)
    case (Inl e)
    with st Cons.prems(4) have "res = Inl e" and "w' = w1" by simp_all
    with step(1) show ?thesis by simp
  next
    case (Inr md1)
    with st Cons.prems(4) have rest: "metadata_files L clk uid rt fs md1 w1 = (res, w')"
      by simp
    from step(2) [OF Inr] have md1: "md1 = collect L w0 [os_path_join rt [f]] md" .
    from Cons.IH [OF step(1) Cons.prems(2) sr rest] show ?thesis
      unfolding md1 by simp
  qed
qed

lemma metadata_walk_cond:
  assumes "same_but LL w0 w" and "LL = path_loc w0 (log_file clk)"
    and "\<forall>p \<in> set (walk_files triples). safe_path LL w0 p"
    and "metadata_walk L clk uid triples md w = (res, w')"
  shows "same_but LL w0 w'
       \<and> (\<forall>md'. res = Inr md' \<longrightarrow> md' = collect L w0 (walk_files triples) md)"
  using assms
proof (induction triples arbitrary: md w)
  case Nil
  then show ?case by (auto simp: walk_files_def)
next
  case (Cons t triples)
  obtain rt ds fs where t: "t = (rt, ds, fs)" by (cases t)
  have wf: "walk_files (t # triples) = map (\<lambda>f. os_path_join rt [f]) fs @ walk_files triples"
    by (simp add: walk_files_def t)
  obtain r1 w1 where st: "metadata_files L clk uid rt fs md w = (r1, w1)"
    by (cases "metadata_files L clk uid rt fs md w")
  from Cons.prems(3) have sf: "\<forall>f \<in> set fs. safe_path LL w0 (os_path_join rt [f])"
    and sr: "\<forall>p \<in> set (walk_files triples). safe_path LL w0 p"
    unfolding wf by simp_all
  note step = metadata_files_cond [OF Cons.prems(1,2) sf st]
  show ?case
  proof (cases r1)
    case (Inl e)
    with st Cons.prems(4) t have "res = Inl e" and "w' = w1" by simp_all
    with step show ?thesis by simp
  next
    case (Inr md1)
    with st Cons.prems(4) t have rest: "metadata_walk L clk uid triples md1 w1 = (res, w')"
      by simp
    from step Inr have md1: "md1 = collect L w0 (map (\<lambda>f. os_path_join rt [f]) fs) md"
      by simp
    from step have sb1: "same_but LL w0 w1" by simp
    from Cons.IH [OF sb1 Cons.prems(2) sr rest] show ?thesis
      unfolding md1 wf collect_append by simp
  qed
qed

section \<open>Metadata, computed twice\<close>

lemma os_walk_world:
  "root (snd (os_walk tp w)) = root w \<and> cwd (snd (os_walk tp w)) = cwd w"
  by (auto simp: os_walk_def split: option.splits)

lemma os_walk_fst:
  "fst (os_walk tp w) = (case stat_node w tp of None \<Rightarrow> [] | Some n \<Rightarrow> walk tp n)"
  by (simp add: os_walk_def split: option.splits)

lemma os_walk_cong:
  assumes "root w' = root w" and "cwd w' = cwd w"
  shows "fst (os_walk tp w') = fst (os_walk tp w)"
  using stat_node_cong [OF assms, of tp] by (simp add: os_walk_def split: option.splits)

lemma visited_safe:
  assumes wf: "wf_downloads w" and date: "sep \<notin> set (today_isoformat clk)"
    and p: "p \<in> set (visited w)"
  shows "safe_path (path_loc w (log_file clk)) w p"
proof (cases "stat_node w downloads_path")
  case None
  with p show ?thesis by (simp add: visited_def os_walk_def walk_files_def)
next
  case (Some nd)
  then obtain D where D: "path_loc w downloads_path = Some D" and lk: "lookup D (root w) = Some nd"
    by (auto simp: stat_node_def split: option.splits)
  from wf Some have wn: "wf_node nd" by (simp add: wf_downloads_def)
  from p Some obtain rt ds fs f where t: "(rt, ds, fs) \<in> set (walk downloads_path nd)"
    and f: "f \<in> set fs" and pf: "p = os_path_join rt [f]"
    by (auto simp: visited_def os_walk_def walk_files_def)
  have ne: "downloads_path \<noteq> []" and la: "last downloads_path \<noteq> sep"
    by (simp_all add: downloads_path_eq sep_def)
  from walk_paths_under [OF D lk wn ne la t f] obtain l where
    l: "path_loc w p = Some l" and pre: "prefix D l"
    unfolding pf by blast
  show ?thesis
    unfolding safe_path_def
  proof (intro allI impI)
    fix l' x
    assume a: "path_loc w p = Some l' \<and> path_loc w (log_file clk) = Some x"
    then have "l' = l" using l by simp
    moreover have "\<not> prefix D x" using log_not_under_downloads [OF date _ D] a by blast
    ultimately show "\<not> prefix l' x" using pre by (auto dest: prefix_order.trans)
  qed
qed

lemma downloads_safe:
  assumes "sep \<notin> set (today_isoformat clk)"
  shows "safe_path (path_loc w (log_file clk)) w downloads_path"
  unfolding safe_path_def
  using log_not_under_downloads [OF assms] by blast

text \<open>What a run of \<open>file_metadata\<close> that answers has computed, and what it has left.\<close>

lemma walk_downloads_run:
  assumes run: "walk_downloads L clk uid w = (Inr md, w3)"
    and wf: "wf_downloads w" and date: "sep \<notin> set (today_isoformat clk)"
  shows "md = collect L w (visited w) []"
    and "same_but (path_loc w (log_file clk)) w w3"
proof -
  let ?LL = "path_loc w (log_file clk)"
  let ?w1 = "traced (IoStat downloads_path) w"
  have part: "same_but ?LL w w3 \<and> md = collect L w (visited w) []"
  proof (cases "stat_node w downloads_path")
    case None
    with run have "md = []" "w3 = ?w1"
      by (simp_all add: walk_downloads_def os_path_exists_def)
    moreover from None have "visited w = []"
      by (simp add: visited_def os_walk_def walk_files_def)
    ultimately show ?thesis by (simp add: same_but_refl)
  next
    case (Some nd)
    obtain triples w2 where ow: "os_walk downloads_path ?w1 = (triples, w2)"
      by (cases "os_walk downloads_path ?w1")
    with os_walk_world [of downloads_path ?w1] have w2: "root w2 = root w" "cwd w2 = cwd w"
      by simp_all
    from ow os_walk_cong [of ?w1 w downloads_path]
    have tr: "triples = fst (os_walk downloads_path w)" by simp
    from run Some ow have mw: "metadata_walk L clk uid triples [] w2 = (Inr md, w3)"
      by (simp add: walk_downloads_def os_path_exists_def)
    have sb2: "same_but ?LL w w2" using w2 by (rule same_but_root)
    have safe: "\<forall>p \<in> set (walk_files triples). safe_path ?LL w p"
      using visited_safe [OF wf date] by (simp add: tr visited_def)
    from metadata_walk_cond [OF sb2 refl safe mw] show ?thesis
      by (simp add: tr visited_def)
  qed
  from part show "md = collect L w (visited w) []" by simp
  from part show "same_but (path_loc w (log_file clk)) w w3" by simp
qed

lemma file_metadata_inv:
  assumes "file_metadata cfg L clk req w = (Jsonify False m (Metadata md), w')"
  shows "\<exists>uid w3. walk_downloads L clk uid w = (Inr md, w3)
           \<and> log_sync_operation L clk uid ''METADATA_REQUEST''
                 (''Files: '' @ str_nat (length md)) w3 = (Inr (), w')"
  using assms
  by (auto simp: file_metadata_def logged_def error_response_def missing_parameter_def
      split: option.splits if_splits prod.splits sum.splits)

lemma file_metadata_run:
  assumes run: "file_metadata cfg L clk req w = (Jsonify False m (Metadata md), w')"
    and wf: "wf_downloads w" and date: "sep \<notin> set (today_isoformat clk)"
  shows "md = collect L w (visited w) []"
    and "same_but (path_loc w (log_file clk)) w w'"
proof -
  from file_metadata_inv [OF run] obtain uid w3 where
    wd: "walk_downloads L clk uid w = (Inr md, w3)"
    and lg: "log_sync_operation L clk uid ''METADATA_REQUEST''
                 (''Files: '' @ str_nat (length md)) w3 = (Inr (), w')"
    by blast
  from walk_downloads_run [OF wd wf date]
  have c: "md = collect L w (visited w) []"
    and sb3: "same_but (path_loc w (log_file clk)) w w3" by simp_all
  have "same_but (path_loc w (log_file clk)) w
      (snd (log_sync_operation L clk uid ''METADATA_REQUEST''
              (''Files: '' @ str_nat (length md)) w3))"
    using sb3 by (intro same_but_log) simp_all
  then have "same_but (path_loc w (log_file clk)) w w'" unfolding lg by simp
  with c show "md = collect L w (visited w) []"
    and "same_but (path_loc w (log_file clk)) w w'" by simp_all
qed

lemma collect_cong:
  assumes "\<And>p. p \<in> set ps \<Longrightarrow> file_record_of L w' p = file_record_of L w p
                               \<and> rel_path_of w' p = rel_path_of w p"
  shows "collect L w' ps md = collect L w ps md"
  using assms
proof (induction ps arbitrary: md)
  case Nil
  then show ?case by simp
next
  case (Cons a ps)
  from Cons.prems [of a] have a: "file_record_of L w' a = file_record_of L w a"
    "rel_path_of w' a = rel_path_of w a" by simp_all
  have "collect L w' ps md' = collect L w ps md'" for md'
    by (rule Cons.IH) (use Cons.prems in simp)
  then show ?case by (simp add: a cong: option.case_cong)
qed

lemma demo_run1:
  "fst (file_metadata default_config demo_lib demo_clock demo_sync_request demo_world)
   = Jsonify False ''Metadata retrieved.'' (Metadata demo_metadata)"
  by code_simp

lemma demo_run2:
  "fst (file_metadata default_config demo_lib demo_clock_later demo_sync_request
          (snd (file_metadata default_config demo_lib demo_clock demo_sync_request demo_world)))
   = Jsonify False ''Metadata retrieved.'' (Metadata demo_metadata)"
  by code_simp

lemma demo_wf: "wf_downloads demo_world"
  by code_simp

text \<open>
  Claim C8. The metadata computation is read-only and idempotent. When a run of
  \<open>file_metadata\<close> answers, and a second run on the world it left answers too (at a
  later time, the tree under \<^verbatim>\<open>downloads/\<close> well formed, the dates free of slashes), the
  second map of metadata equals the first: the same files, each with the same size,
  modification time and digest. The first run, and the second, leave the whole tree under
  \<^verbatim>\<open>downloads/\<close> as it was; what they write is the day's log under \<^verbatim>\<open>logs/\<close>.
\<close>

theorem metadata_idempotent:
  assumes run1: "file_metadata cfg L clk1 req1 w = (Jsonify False m1 (Metadata md1), w1)"
    and run2: "file_metadata cfg L clk2 req2 w1 = (Jsonify False m2 (Metadata md2), w2)"
    and wf: "wf_downloads w"
    and date1: "sep \<notin> set (today_isoformat clk1)"
    and date2: "sep \<notin> set (today_isoformat clk2)"
  shows "md2 = md1
       \<and> stat_node w1 downloads_path = stat_node w downloads_path
       \<and> stat_node w2 downloads_path = stat_node w downloads_path"
proof -
  let ?L1 = "path_loc w (log_file clk1)"
  from file_metadata_run [OF run1 wf date1]
  have md1: "md1 = collect L w (visited w) []" and sb1: "same_but ?L1 w w1" by simp_all
  have st1: "stat_node w1 downloads_path = stat_node w downloads_path"
    using sb1 downloads_safe [OF date1] by (rule same_but_stat_safe)
  have cw: "cwd w1 = cwd w" using sb1 by (rule same_but_cwd)
  have wf1: "wf_downloads w1" using wf st1 by (simp add: wf_downloads_def)
  have vis: "visited w1 = visited w" using st1 by (simp add: visited_def os_walk_fst)
  from file_metadata_run [OF run2 wf1 date2]
  have md2: "md2 = collect L w1 (visited w1) []"
    and sb2: "same_but (path_loc w1 (log_file clk2)) w1 w2" by simp_all
  have "collect L w1 (visited w) [] = collect L w (visited w) []"
  proof (rule collect_cong)
    fix p assume "p \<in> set (visited w)"
    from visited_safe [OF wf date1 this] have "safe_path ?L1 w p" .
    from same_but_record(1,3) [OF sb1 this]
    show "file_record_of L w1 p = file_record_of L w p \<and> rel_path_of w1 p = rel_path_of w p"
      by simp
  qed
  with md1 md2 vis have eq: "md2 = md1" by simp
  have "stat_node w2 downloads_path = stat_node w1 downloads_path"
    using sb2 downloads_safe [OF date2] by (rule same_but_stat_safe)
  with eq st1 show ?thesis by simp
qed

theorem metadata_idempotent_witness:
  "fst (file_metadata default_config demo_lib demo_clock demo_sync_request demo_world)
     = Jsonify False ''Metadata retrieved.'' (Metadata demo_metadata)
   \<and> fst (file_metadata default_config demo_lib demo_clock_later demo_sync_request
          (snd (file_metadata default_config demo_lib demo_clock demo_sync_request demo_world)))
     = Jsonify False ''Metadata retrieved.'' (Metadata demo_metadata)
   \<and> stat_node
        (snd (file_metadata default_config demo_lib demo_clock demo_sync_request demo_world))
        downloads_path
     = stat_node demo_world downloads_path"
proof -
  let ?r1 = "file_metadata default_config demo_lib demo_clock demo_sync_request demo_world"
  let ?r2 = "file_metadata default_config demo_lib demo_clock_later demo_sync_request (snd ?r1)"
  have run1: "?r1 = (Jsonify False ''Metadata retrieved.'' (Metadata demo_metadata), snd ?r1)"
    using demo_run1 by (simp add: prod_eq_iff)
  have run2: "?r2 = (Jsonify False ''Metadata retrieved.'' (Metadata demo_metadata), snd ?r2)"
    using demo_run2 by (simp add: prod_eq_iff)
  have d1: "sep \<notin> set (today_isoformat demo_clock)"
    and d2: "sep \<notin> set (today_isoformat demo_clock_later)"
    by (simp_all add: demo_clock_def demo_clock_later_def sep_def)
  from metadata_idempotent [OF run1 run2 demo_wf d1 d2] demo_run1 demo_run2
  show ?thesis by simp
qed

section \<open>Failures during the metadata walk\<close>

lemma log_entry_json: "log_entry clk u op d = entry_json (now_isoformat clk, u, op, d)"
  by (simp add: log_entry_def entry_json_def)

lemma current_logs_cong:
  assumes "root w' = root w" and "cwd w' = cwd w"
  shows "current_logs L clk w' = current_logs L clk w"
  using stat_node_cong [OF assms, of "log_file clk"] by (simp add: current_logs_def)

lemma log_inv_cong:
  assumes "root w' = root w" and "cwd w' = cwd w"
  shows "log_inv L clk old w' = log_inv L clk old w"
  using log_ready_cong [OF assms, of L clk] current_logs_cong [OF assms, of L clk]
  by (simp add: log_inv_def)

lemma current_logs_stat:
  assumes "stat_node w (log_file clk) = Some (File b m r)"
    and "json_load L b = Inr (JList logs)"
  shows "current_logs L clk w = logs"
  using assms by (simp add: current_logs_def)

text \<open>One log entry, the log writable and the library reading back what it writes.\<close>

lemma log_step_ok:
  assumes inv: "log_inv L clk old w" and codec: "json_keeps_logs L old"
  shows "\<exists>w'. log_sync_operation L clk u op d w = (Inr (), w')
           \<and> log_inv L clk old w'
           \<and> current_logs L clk w' = current_logs L clk w @ [log_entry clk u op d]"
proof -
  from inv obtain es where lr: "log_ready L clk w"
    and cur: "current_logs L clk w = old @ map entry_json es"
    by (auto simp: log_inv_def)
  from log_ready_loc [OF lr] obtain ll where ll: "path_loc w (log_file clk) = Some ll" by blast
  let ?new = "current_logs L clk w @ [log_entry clk u op d]"
  obtain r w' where run: "log_sync_operation L clk u op d w = (r, w')"
    by (cases "log_sync_operation L clk u op d w")
  from log_ready_success [OF lr ll, of u op d] run
  have r: "r = Inr ()"
    and lk: "lookup ll (root w') = Some (File (json_dump L (JList ?new)) (now clk) True)"
    by simp_all
  from log_same_but [of w clk L u op d] run ll have "same_but (Some ll) w w'" by simp
  then have "path_loc w' (log_file clk) = Some ll" using ll by (simp add: same_but_path_loc)
  with lk have st: "stat_node w' (log_file clk)
      = Some (File (json_dump L (JList ?new)) (now clk) True)"
    and pl: "path_loc w' (log_file clk) = Some ll"
    by (simp_all add: stat_node_def)
  have new: "?new = old @ map entry_json (es @ [(now_isoformat clk, u, op, d)])"
    by (simp add: cur log_entry_json)
  from codec have ld: "json_load L (json_dump L (JList ?new)) = Inr (JList ?new)"
    unfolding new json_keeps_logs_def by blast
  have c': "current_logs L clk w' = ?new" by (rule current_logs_stat [OF st ld])
  have "log_ready L clk w'" by (simp add: log_ready_def pl lk ld is_json_list_def)
  with c' new have "log_inv L clk old w'" unfolding log_inv_def by metis
  with run r c' show ?thesis by simp
qed

lemma metadata_file_ok:
  assumes sb: "same_but LL w0 w" and LL: "LL = path_loc w0 (log_file clk)"
    and safe: "safe_path LL w0 (os_path_join rt [f])"
    and inv: "log_inv L clk old w" and codec: "json_keeps_logs L old"
  shows "\<exists>w'. metadata_file L clk uid rt f md w = (Inr (collect L w0 [os_path_join rt [f]] md), w')
           \<and> same_but LL w0 w' \<and> log_inv L clk old w'
           \<and> current_logs L clk w'
               = current_logs L clk w @ error_entries L clk uid w0 [os_path_join rt [f]]"
proof -
  let ?p = "os_path_join rt [f]"
  obtain res w' where run: "metadata_file L clk uid rt f md w = (res, w')"
    by (cases "metadata_file L clk uid rt f md w")
  note step = metadata_file_step [OF sb LL safe run]
  obtain rs w1 where rr: "read_record L ?p w = (rs, w1)" by (cases "read_record L ?p w")
  with read_record_world [of L ?p w] have w1: "root w1 = root w" "cwd w1 = cwd w" by simp_all
  have inv1: "log_inv L clk old w1" using inv log_inv_cong [OF w1] by simp
  have cur1: "current_logs L clk w1 = current_logs L clk w" using w1 by (rule current_logs_cong)
  have fr: "file_record_of L w ?p = file_record_of L w0 ?p"
    and ff: "file_failure w ?p = file_failure w0 ?p"
    and rel: "rel_path_of w ?p = rel_path_of w0 ?p"
    using same_but_record [OF sb safe] by simp_all
  have rs: "rs = (case file_record_of L w0 ?p of None \<Rightarrow> Inl (file_failure w0 ?p)
                    | Some r \<Rightarrow> Inr r)"
    using read_record_fst [of L ?p w] unfolding rr fr ff by simp
  show ?thesis
  proof (cases "file_record_of L w0 ?p")
    case (Some r)
    then have "rs = Inr r" using rs by simp
    with run have "res = Inr (AList.update (rel_path_of w0 ?p) r md)" and "w' = w1"
      unfolding metadata_file_def Let_def rr rel by simp_all
    with Some run inv1 cur1 step(1) show ?thesis by simp
  next
    case None
    let ?d = "metadata_error L (rel_path_of w0 ?p) (file_failure w0 ?p)"
    from log_step_ok [OF inv1 codec, of uid "''METADATA_ERROR''" ?d] obtain w2 where
      lg: "log_sync_operation L clk uid ''METADATA_ERROR'' ?d w1 = (Inr (), w2)"
      and inv2: "log_inv L clk old w2"
      and cur2: "current_logs L clk w2
          = current_logs L clk w1 @ [log_entry clk uid ''METADATA_ERROR'' ?d]"
      by blast
    from None have "rs = Inl (file_failure w0 ?p)" using rs by simp
    with run have "res = Inr md" and "w' = w2"
      unfolding metadata_file_def Let_def rr rel by (simp_all add: lg)
    with None run inv2 cur2 cur1 step(1) show ?thesis by simp
  qed
qed

lemma error_entries_append:
  "error_entries L clk uid w (xs @ ys)
   = error_entries L clk uid w xs @ error_entries L clk uid w ys"
  by (induction xs) auto

lemma metadata_files_ok:
  assumes "same_but LL w0 w" and "LL = path_loc w0 (log_file clk)"
    and "\<forall>f \<in> set fs. safe_path LL w0 (os_path_join rt [f])"
    and "log_inv L clk old w" and "json_keeps_logs L old"
  shows "\<exists>w'. metadata_files L clk uid rt fs md w
             = (Inr (collect L w0 (map (\<lambda>f. os_path_join rt [f]) fs) md), w')
           \<and> same_but LL w0 w' \<and> log_inv L clk old w'
           \<and> current_logs L clk w'
               = current_logs L clk w
                 @ error_entries L clk uid w0 (map (\<lambda>f. os_path_join rt [f]) fs)"
  using assms
proof (induction fs arbitrary: md w)
  case Nil
  then show ?case by simp
next
  case (Cons f fs)
  from Cons.prems(3) have sf: "safe_path LL w0 (os_path_join rt [f])"
    and sr: "\<forall>f \<in> set fs. safe_path LL w0 (os_path_join rt [f])"
    by simp_all
  from metadata_file_ok [OF Cons.prems(1,2) sf Cons.prems(4,5), of uid md] obtain w1 where
    st: "metadata_file L clk uid rt f md w = (Inr (collect L w0 [os_path_join rt [f]] md), w1)"
    and sb1: "same_but LL w0 w1" and inv1: "log_inv L clk old w1"
    and cur1: "current_logs L clk w1
        = current_logs L clk w @ error_entries L clk uid w0 [os_path_join rt [f]]"
    by blast
  from Cons.IH [OF sb1 Cons.prems(2) sr inv1 Cons.prems(5),
      of "collect L w0 [os_path_join rt [f]] md"]
  obtain w' where
    rest: "metadata_files L clk uid rt fs (collect L w0 [os_path_join rt [f]] md) w1
        = (Inr (collect L w0 (map (\<lambda>f. os_path_join rt [f]) fs)
                  (collect L w0 [os_path_join rt [f]] md)), w')"
    and sb': "same_but LL w0 w'" and inv': "log_inv L clk old w'"
    and cur': "current_logs L clk w'
        = current_logs L clk w1 @ error_entries L clk uid w0 (map (\<lambda>f. os_path_join rt [f]) fs)"
    by blast
  have "metadata_files L clk uid rt (f # fs) md w
      = (Inr (collect L w0 (map (\<lambda>f. os_path_join rt [f]) (f # fs)) md), w')"
    using st rest by simp
  moreover have "current_logs L clk w'
      = current_logs L clk w
        @ error_entries L clk uid w0 (map (\<lambda>f. os_path_join rt [f]) (f # fs))"
    using cur' cur1 by simp
  ultimately show ?case using sb' inv' by blast
qed

lemma metadata_walk_ok:
  assumes "same_but LL w0 w" and "LL = path_loc w0 (log_file clk)"
    and "\<forall>p \<in> set (walk_files triples). safe_path LL w0 p"
    and "log_inv L clk old w" and "json_keeps_logs L old"
  shows "\<exists>w'. metadata_walk L clk uid triples md w
             = (Inr (collect L w0 (walk_files triples) md), w')
           \<and> same_but LL w0 w' \<and> log_inv L clk old w'
           \<and> current_logs L clk w'
               = current_logs L clk w @ error_entries L clk uid w0 (walk_files triples)"
  using assms
proof (induction triples arbitrary: md w)
  case Nil
  then show ?case by (simp add: walk_files_def)
next
  case (Cons t triples)
  obtain rt ds fs where t: "t = (rt, ds, fs)" by (cases t)
  let ?ps = "map (\<lambda>f. os_path_join rt [f]) fs"
  have wf: "walk_files (t # triples) = ?ps @ walk_files triples"
    by (simp add: walk_files_def t)
  from Cons.prems(3) have sf: "\<forall>f \<in> set fs. safe_path LL w0 (os_path_join rt [f])"
    and sr: "\<forall>p \<in> set (walk_files triples). safe_path LL w0 p"
    unfolding wf by simp_all
  from metadata_files_ok [OF Cons.prems(1,2) sf Cons.prems(4,5), of uid md] obtain w1 where
    st: "metadata_files L clk uid rt fs md w = (Inr (collect L w0 ?ps md), w1)"
    and sb1: "same_but LL w0 w1" and inv1: "log_inv L clk old w1"
    and cur1: "current_logs L clk w1 = current_logs L clk w @ error_entries L clk uid w0 ?ps"
    by blast
  from Cons.IH [OF sb1 Cons.prems(2) sr inv1 Cons.prems(5), of "collect L w0 ?ps md"]
  obtain w' where
    rest: "metadata_walk L clk uid triples (collect L w0 ?ps md) w1
        = (Inr (collect L w0 (walk_files triples) (collect L w0 ?ps md)), w')"
    and sb': "same_but LL w0 w'" and inv': "log_inv L clk old w'"
    and cur': "current_logs L clk w'
        = current_logs L clk w1 @ error_entries L clk uid w0 (walk_files triples)"
    by blast
  have "metadata_walk L clk uid (t # triples) md w
      = (Inr (collect L w0 (walk_files (t # triples)) md), w')"
    unfolding wf collect_append using st rest by (simp add: t)
  moreover have "current_logs L clk w'
      = current_logs L clk w @ error_entries L clk uid w0 (walk_files (t # triples))"
    using cur' cur1 by (simp add: wf error_entries_append)
  ultimately show ?case using sb' inv' by blast
qed


lemma walk_downloads_ok:
  assumes wf: "wf_downloads w" and date: "sep \<notin> set (today_isoformat clk)"
    and inv: "log_inv L clk old w" and codec: "json_keeps_logs L old"
  shows "\<exists>w3. walk_downloads L clk uid w = (Inr (collect L w (visited w) []), w3)
           \<and> log_inv L clk old w3
           \<and> current_logs L clk w3 = current_logs L clk w @ error_entries L clk uid w (visited w)"
proof (cases "stat_node w downloads_path")
  case None
  let ?w1 = "traced (IoStat downloads_path) w"
  from None have "walk_downloads L clk uid w = (Inr [], ?w1)"
    by (simp add: walk_downloads_def os_path_exists_def)
  moreover from None have "visited w = []"
    by (simp add: visited_def os_walk_def walk_files_def)
  moreover have "log_inv L clk old ?w1" using inv log_inv_cong [of ?w1 w L clk old] by simp
  moreover have "current_logs L clk ?w1 = current_logs L clk w"
    by (rule current_logs_cong) simp_all
  ultimately show ?thesis by simp
next
  case (Some nd)
  let ?LL = "path_loc w (log_file clk)"
  let ?w1 = "traced (IoStat downloads_path) w"
  obtain triples w2 where ow: "os_walk downloads_path ?w1 = (triples, w2)"
    by (cases "os_walk downloads_path ?w1")
  with os_walk_world [of downloads_path ?w1] have w2: "root w2 = root w" "cwd w2 = cwd w"
    by simp_all
  from ow os_walk_cong [of ?w1 w downloads_path]
  have tr: "triples = fst (os_walk downloads_path w)" by simp
  have wd: "walk_downloads L clk uid w = metadata_walk L clk uid triples [] w2"
    using Some ow by (simp add: walk_downloads_def os_path_exists_def)
  have sb2: "same_but ?LL w w2" using w2 by (rule same_but_root)
  have safe: "\<forall>p \<in> set (walk_files triples). safe_path ?LL w p"
    using visited_safe [OF wf date] by (simp add: tr visited_def)
  have inv2: "log_inv L clk old w2" using inv log_inv_cong [OF w2] by simp
  have cur2: "current_logs L clk w2 = current_logs L clk w" using w2 by (rule current_logs_cong)
  from metadata_walk_ok [OF sb2 refl safe inv2 codec, of uid "[]"] show ?thesis
    unfolding wd cur2 by (auto simp: tr visited_def)
qed

lemma collect_keys:
  "fst ` set (collect L w ps md)
   = fst ` set md \<union> rel_path_of w ` {p \<in> set ps. file_record_of L w p \<noteq> None}"
proof (induction ps arbitrary: md)
  case Nil
  then show ?case by simp
next
  case (Cons p ps)
  show ?case
  proof (cases "file_record_of L w p")
    case None
    then show ?thesis using Cons.IH [of md] by auto
  next
    case (Some r)
    then show ?thesis
      using Cons.IH [of "AList.update (rel_path_of w p) r md"] by (auto simp: dom_update)
  qed
qed

lemma error_entries_mem:
  assumes "p \<in> set ps" and "file_record_of L w p = None"
  shows "log_entry clk uid ''METADATA_ERROR''
           (metadata_error L (rel_path_of w p) (file_failure w p))
         \<in> set (error_entries L clk uid w ps)"
  using assms by (induction ps) auto

lemma dec_enc: "dec_strs acc (enc_str s @ rest) = (rev acc @ s) # dec_strs [] rest"
  by (induction s arbitrary: acc) (simp_all add: enc_str_def)

lemma dec_concat: "dec_strs [] (concat (map enc_str ss)) = ss"
  by (induction ss) (simp_all add: dec_enc)

lemma entries_fields:
  "entries_of (concat (map (entry_fields \<circ> entry_json) es)) = map entry_json es"
  by (induction es) (auto simp: entry_json_def)

lemma demo_codec: "json_keeps_logs demo_lib []"
  by (simp add: json_keeps_logs_def demo_lib_def demo_load_def demo_dump_def dec_concat
      entries_fields)

lemma demo_log_ready: "log_ready demo_lib demo_clock demo_world"
  by code_simp

lemma demo_logs_empty: "current_logs demo_lib demo_clock demo_world = []"
  by code_simp

lemma demo_collect: "collect demo_lib demo_world (visited demo_world) [] = demo_metadata"
  by code_simp

lemma demo_unreadable:
  "''./dataroot/downloads/users/U002/c.txt'' \<in> set (visited demo_world)
   \<and> file_record_of demo_lib demo_world ''./dataroot/downloads/users/U002/c.txt'' = None
   \<and> rel_path_of demo_world ''./dataroot/downloads/users/U002/c.txt''
       = ''downloads/users/U002/c.txt''
   \<and> file_failure demo_world ''./dataroot/downloads/users/U002/c.txt''
       = PermissionError ''./dataroot/downloads/users/U002/c.txt''"
  by code_simp

text \<open>
  Claim C9. A failure on one file does not abort the metadata walk. For a Management
  caller with a valid token, the tree under \<^verbatim>\<open>downloads/\<close> well formed, the day's log
  writable and read back by the JSON library as it was written, \<open>file_metadata\<close> answers
  with success and the map of the files it could read: the keys of the map are the
  relative paths of the visited files whose metadata could be computed, every other
  visited file is skipped and has its own \<^verbatim>\<open>METADATA_ERROR\<close> entry in the log, naming the
  file and the error, and the files after it are still visited. The log afterwards is the
  log before, then one entry for each file that failed, in the order of the walk, then the
  \<^verbatim>\<open>METADATA_REQUEST\<close> entry with the number of files in the map.
\<close>

theorem metadata_partial_failure:
  assumes tok: "form_token req = Some tok"
    and ver: "verify_token tok (now clk) = Some (user_id, user_folder)"
    and mg: "user_id \<in> set (MANAGEMENT_USERS cfg)"
    and wf: "wf_downloads w" and date: "sep \<notin> set (today_isoformat clk)"
    and lr: "log_ready L clk w"
    and codec: "json_keeps_logs L (current_logs L clk w)"
  shows "fst (file_metadata cfg L clk req w)
           = Jsonify False ''Metadata retrieved.'' (Metadata (collect L w (visited w) []))
       \<and> fst ` set (collect L w (visited w) [])
           = rel_path_of w ` {p \<in> set (visited w). file_record_of L w p \<noteq> None}
       \<and> (\<forall>p \<in> set (visited w). file_record_of L w p = None \<longrightarrow>
             log_entry clk user_id ''METADATA_ERROR''
               (metadata_error L (rel_path_of w p) (file_failure w p))
             \<in> set (current_logs L clk (snd (file_metadata cfg L clk req w))))
       \<and> current_logs L clk (snd (file_metadata cfg L clk req w))
           = current_logs L clk w @ error_entries L clk user_id w (visited w)
             @ [log_entry clk user_id ''METADATA_REQUEST''
                  (''Files: '' @ str_nat (length (collect L w (visited w) [])))]"
proof -
  let ?old = "current_logs L clk w"
  let ?md = "collect L w (visited w) []"
  have "?old = ?old @ map entry_json []" by simp
  with lr have inv: "log_inv L clk ?old w" unfolding log_inv_def by blast
  from walk_downloads_ok [OF wf date inv codec, of user_id] obtain w3 where
    wd: "walk_downloads L clk user_id w = (Inr ?md, w3)"
    and inv3: "log_inv L clk ?old w3"
    and cur3: "current_logs L clk w3 = ?old @ error_entries L clk user_id w (visited w)"
    by blast
  from log_step_ok [OF inv3 codec, of user_id "''METADATA_REQUEST''"
      "''Files: '' @ str_nat (length ?md)"]
  obtain w4 where
    lg: "log_sync_operation L clk user_id ''METADATA_REQUEST''
           (''Files: '' @ str_nat (length ?md)) w3 = (Inr (), w4)"
    and cur4: "current_logs L clk w4 = current_logs L clk w3
        @ [log_entry clk user_id ''METADATA_REQUEST'' (''Files: '' @ str_nat (length ?md))]"
    by blast
  have run: "file_metadata cfg L clk req w
      = (Jsonify False ''Metadata retrieved.'' (Metadata ?md), w4)"
    unfolding file_metadata_def logged_def using tok ver mg wd lg by simp
  have logs: "current_logs L clk (snd (file_metadata cfg L clk req w))
      = ?old @ error_entries L clk user_id w (visited w)
        @ [log_entry clk user_id ''METADATA_REQUEST'' (''Files: '' @ str_nat (length ?md))]"
    unfolding run using cur4 cur3 by simp
  have keys: "fst ` set ?md = rel_path_of w ` {p \<in> set (visited w). file_record_of L w p \<noteq> None}"
    using collect_keys [of L w "visited w" "[]"] by simp
  have errs: "\<forall>p \<in> set (visited w). file_record_of L w p = None \<longrightarrow>
      log_entry clk user_id ''METADATA_ERROR''
        (metadata_error L (rel_path_of w p) (file_failure w p))
      \<in> set (current_logs L clk (snd (file_metadata cfg L clk req w)))"
    unfolding logs using error_entries_mem [of _ "visited w" L w clk user_id] by simp
  from run keys errs logs show ?thesis by simp
qed

theorem metadata_partial_failure_witness:
  "log_ready demo_lib demo_clock demo_world
   \<and> wf_downloads demo_world
   \<and> fst (file_metadata default_config demo_lib demo_clock demo_sync_request demo_world)
       = Jsonify False ''Metadata retrieved.'' (Metadata demo_metadata)
   \<and> ''./dataroot/downloads/users/U002/c.txt'' \<in> set (visited demo_world)
   \<and> ''downloads/users/U002/c.txt'' \<notin> fst ` set demo_metadata
   \<and> current_logs demo_lib demo_clock
        (snd (file_metadata default_config demo_lib demo_clock demo_sync_request demo_world))
       = [log_entry demo_clock ''sync_client'' ''METADATA_ERROR''
            (metadata_error demo_lib ''downloads/users/U002/c.txt''
               (PermissionError ''./dataroot/downloads/users/U002/c.txt'')),
          log_entry demo_clock ''sync_client'' ''METADATA_REQUEST'' ''Files: 3'']"
proof -
  let ?tok = "demo_token ''sync_client'' ''sync_client'' 1300"
  let ?w' = "snd (file_metadata default_config demo_lib demo_clock demo_sync_request demo_world)"
  have h1: "form_token demo_sync_request = Some ?tok"
    by (simp add: demo_sync_request_def demo_request_def)
  have h2: "verify_token ?tok (now demo_clock) = Some (''sync_client'', Some ''sync_client'')"
    by (simp add: demo_verify)
  have h3: "''sync_client'' \<in> set (MANAGEMENT_USERS default_config)"
    by (simp add: default_config_def)
  have h4: "sep \<notin> set (today_isoformat demo_clock)" by (simp add: demo_clock_def sep_def)
  have h5: "json_keeps_logs demo_lib (current_logs demo_lib demo_clock demo_world)"
    unfolding demo_logs_empty by (rule demo_codec)
  have ee: "error_entries demo_lib demo_clock ''sync_client'' demo_world (visited demo_world)
      = [log_entry demo_clock ''sync_client'' ''METADATA_ERROR''
            (metadata_error demo_lib ''downloads/users/U002/c.txt''
               (PermissionError ''./dataroot/downloads/users/U002/c.txt''))]"
    by code_simp
  have n3: "''Files: '' @ str_nat (length demo_metadata) = ''Files: 3''" by code_simp
  have nk: "''downloads/users/U002/c.txt'' \<notin> fst ` set demo_metadata" by code_simp
  note inst = metadata_partial_failure [OF h1 h2 h3 demo_wf h4 demo_log_ready h5]
  from inst have r: "fst (file_metadata default_config demo_lib demo_clock demo_sync_request
      demo_world) = Jsonify False ''Metadata retrieved.'' (Metadata demo_metadata)"
    unfolding demo_collect by simp
  from inst have l: "current_logs demo_lib demo_clock ?w'
      = current_logs demo_lib demo_clock demo_world
        @ error_entries demo_lib demo_clock ''sync_client'' demo_world (visited demo_world)
        @ [log_entry demo_clock ''sync_client'' ''METADATA_REQUEST''
             (''Files: '' @ str_nat (length demo_metadata))]"
    unfolding demo_collect by simp
  have l': "current_logs demo_lib demo_clock ?w'
      = [log_entry demo_clock ''sync_client'' ''METADATA_ERROR''
            (metadata_error demo_lib ''downloads/users/U002/c.txt''
               (PermissionError ''./dataroot/downloads/users/U002/c.txt'')),
          log_entry demo_clock ''sync_client'' ''METADATA_REQUEST'' ''Files: 3'']"
    unfolding l demo_logs_empty ee n3 by simp
  from demo_unreadable have v: "''./dataroot/downloads/users/U002/c.txt'' \<in> set (visited demo_world)"
    by simp
  from demo_log_ready demo_wf r v nk l' show ?thesis by (intro conjI)
qed

end
